theory Spec2Isabelle
  imports Complex_Main "HOL-Library.Log_Nat"
begin

section \<open>Data model of CashuWallet.ts\<close>

text \<open>
  Amounts, counters and blinding factors are JavaScript numbers and bigints that the wallet
  only ever uses as non-negative integers; they are modelled as \<open>nat\<close>. A \<open>Uint8Array\<close> is a
  list of byte values; a secret (the UTF-8 encoding of a hex string) and a curve point (a hex
  string) are strings. An optional parameter or field is an \<open>option\<close>.
\<close>

subsection \<open>Arithmetic on amounts\<close>

text \<open>
  An amount is a JavaScript number: an IEEE 754 double that holds a non-negative integer. The
  sum, the difference and the product of two of them is the exact result rounded to the
  nearest double, ties to the even significand. A double has 53 significant binary digits, so
  an integer below \<open>2 ^ 53\<close> is kept as it is, and one of \<open>e > 53\<close> binary digits is rounded to
  a multiple of \<open>2 ^ (e - 53)\<close>; \<open>floorlog 2 n\<close> is the number of binary digits of \<open>n\<close>. The
  wallet subtracts only where the difference is not negative. Results beyond the largest
  double (about \<open>1.8e308\<close>, which no sum of amounts of the protocol reaches) are not modelled.
  Counters are indices of a derivation path, far below \<open>2 ^ 53\<close>, where adding is exact.
\<close>

definition roundToDouble :: "nat \<Rightarrow> nat" where
  "roundToDouble n =
     (if n < 2 ^ 53 then n
      else (let u = 2 ^ (floorlog 2 n - 53); q = n div u; r = n mod u
            in if 2 * r < u then q * u
               else if u < 2 * r then (q + 1) * u
               else if even q then q * u else (q + 1) * u))"

definition jsAdd :: "nat \<Rightarrow> nat \<Rightarrow> nat" where
  "jsAdd a b = roundToDouble (a + b)"

definition jsSub :: "nat \<Rightarrow> nat \<Rightarrow> nat" where
  "jsSub a b = roundToDouble (a - b)"

definition jsMul :: "nat \<Rightarrow> nat \<Rightarrow> nat" where
  "jsMul a b = roundToDouble (a * b)"

type_synonym bytes = "nat list"

record Proof =
  proof_id :: string
  proof_amount :: nat
  proof_secret :: string
  proof_C :: string

record AmountPreference =
  pref_amount :: nat
  pref_count :: nat

record SerializedBlindedMessage =
  bm_amount :: nat
  bm_B :: string
  bm_id :: string

record SerializedBlindedSignature =
  sig_id :: string
  sig_amount :: nat
  sig_C :: string

record MintKeys =
  mk_id :: string
  mk_keys :: "(nat \<times> string) list"

record TokenEntry =
  te_mint :: string
  te_proofs :: "Proof list"

record Token =
  tk_token :: "TokenEntry list"
  tk_memo :: "string option"

record ReceiveResponse =
  rr_token :: Token
  rr_tokensWithErrors :: "Token option"

record ReceiveTokenEntryResponse =
  rte_proofs :: "Proof list"
  rte_proofsWithError :: "Proof list option"

record SendResponse =
  returnChange :: "Proof list"
  send_proofs :: "Proof list"

record SplitPayload =
  sp_inputs :: "Proof list"
  sp_outputs :: "SerializedBlindedMessage list"

record MeltQuoteResponse =
  mq_quote :: string
  mq_amount :: nat
  mq_fee_reserve :: nat

record MeltPayload =
  mp_quote :: string
  mp_inputs :: "Proof list"
  mp_outputs :: "SerializedBlindedMessage list"

record MeltResponse =
  mr_paid :: "bool option"
  mr_payment_preimage :: "string option"
  mr_change :: "SerializedBlindedSignature list option"

record MeltTokensResponse =
  isPaid :: bool
  preimage :: "string option"
  change :: "Proof list"

record RestoreResponse =
  rs_outputs :: "SerializedBlindedMessage list"
  rs_promises :: "SerializedBlindedSignature list"

record BlindedTransaction =
  bt_blindedMessages :: "SerializedBlindedMessage list"
  bt_secrets :: "string list"
  bt_rs :: "nat list"
  bt_amounts :: "nat list"

record BlindedMessageData =
  bd_blindedMessages :: "SerializedBlindedMessage list"
  bd_secrets :: "string list"
  bd_rs :: "nat list"

datatype mnemonicOrSeed = Mnemonic string | Seed bytes

datatype tokenInput = Encoded string | Decoded Token

text \<open>Every \<open>throw\<close> of the wallet and of its collaborators is a value of this type.\<close>

datatype error =
    NoSeed
  | RestoreWithoutSeed
  | NotEnoughFunds
  | InvalidMnemonic
  | InvalidPreference
  | UnknownDenomination
  | LengthMismatch
  | MintFailure string
  | MalformedToken string

subsection \<open>Collaborators that are not part of the sources\<close>

text \<open>
  The functions the wallet imports from \<open>secrets.js\<close>, \<open>utils.js\<close>, \<open>DHKE.js\<close>, \<open>@noble/hashes\<close>
  and \<open>@scure/bip39\<close> are parameters of the model, and so is \<open>Math.log2\<close>, which the language
  leaves to the engine to approximate: \<open>mathLog2 n\<close> is the double it returns for the positive
  integer \<open>n\<close>. \<open>randomBytes\<close> and \<open>randomScalar\<close> give
  the value of the n-th draw from the random source; \<open>blindPoint secret r\<close> is the point
  \<open>hash_to_curve(secret) + r\<cdot>G\<close> and \<open>unblindPoint C_ r K\<close> is \<open>C_ - r\<cdot>K\<close>.
\<close>

record primitives =
  deriveSecret :: "bytes \<Rightarrow> string \<Rightarrow> nat \<Rightarrow> bytes"
  deriveBlindingFactor :: "bytes \<Rightarrow> string \<Rightarrow> nat \<Rightarrow> bytes"
  bytesToNumber :: "bytes \<Rightarrow> nat"
  bytesToHex :: "bytes \<Rightarrow> string"
  randomBytes :: "nat \<Rightarrow> bytes"
  randomScalar :: "nat \<Rightarrow> nat"
  blindPoint :: "string \<Rightarrow> nat \<Rightarrow> string"
  unblindPoint :: "string \<Rightarrow> nat \<Rightarrow> string \<Rightarrow> string"
  validateMnemonic :: "string \<Rightarrow> bool"
  deriveSeedFromMnemonic :: "string \<Rightarrow> bytes"
  getDecodedToken :: "string \<Rightarrow> string + Token"
  cleanToken :: "Token \<Rightarrow> Token"
  mathLog2 :: "nat \<Rightarrow> real"

text \<open>
  A request sent to a mint. \<open>SplitAt url\<close> is the static \<open>CashuMint.split(url, payload)\<close>,
  \<open>Split\<close> the method of the wallet's own mint.
\<close>

datatype request =
    GetKeys "string option" "string option"
  | Split SplitPayload
  | SplitAt string SplitPayload
  | Melt MeltPayload
  | Restore "SerializedBlindedMessage list"

text \<open>
  The mint (class \<open>CashuMint\<close>) is a parameter too. Each endpoint answers from the requests
  received so far and the current one, so a mint with a state of its own is covered; \<open>Inl\<close> is
  a rejected promise.
\<close>

record CashuMint =
  mintUrl :: string
  mint_getKeys :: "request list \<Rightarrow> string option \<Rightarrow> string option \<Rightarrow> string + MintKeys"
  mint_split :: "request list \<Rightarrow> SplitPayload \<Rightarrow> string + SerializedBlindedSignature list"
  static_split :: "request list \<Rightarrow> string \<Rightarrow> SplitPayload \<Rightarrow> string + SerializedBlindedSignature list"
  mint_melt :: "request list \<Rightarrow> MeltPayload \<Rightarrow> string + MeltResponse"
  mint_restore :: "request list \<Rightarrow> SerializedBlindedMessage list \<Rightarrow> string + RestoreResponse"

text \<open>
  The wallet object (\<open>_keys\<close>, \<open>_keysetId\<close>, \<open>_seed\<close>; \<open>w_keys = None\<close> is the empty object
  \<open>{}\<close>) together with its environment: the requests sent so far and the number of random
  draws made so far.
\<close>

record state =
  w_keys :: "MintKeys option"
  w_keysetId :: string
  w_seed :: "bytes option"
  requests :: "request list"
  draws :: nat

section \<open>Helpers modelled from the specification\<close>

text \<open>
  Modelled from the spec: \<open>splitAmount\<close> and \<open>getDefaultAmountPreference\<close> of \<open>utils.js\<close> are
  not among the sources. Section 4.4: with a preference whose total is the amount, each
  preference amount is emitted \<open>count\<close> times in the given order, and every preference amount
  must be a power of two, else \<open>InvalidPreference\<close>; otherwise the amount is decomposed into
  the powers of two of its binary representation, ascending; amount 0 gives the empty list.
\<close>

function isPowerOfTwo :: "nat \<Rightarrow> bool" where
  "isPowerOfTwo n = (if n = 0 then False else if n = 1 then True
                     else even n \<and> isPowerOfTwo (n div 2))"
  by pat_completeness auto
termination
  by (relation "measure (\<lambda>n. n)") auto

function defaultSplitFrom :: "nat \<Rightarrow> nat \<Rightarrow> nat list" where
  "defaultSplitFrom p v =
     (if v = 0 then []
      else (if odd v then [p] else []) @ defaultSplitFrom (2 * p) (v div 2))"
  by pat_completeness auto
termination
  by (relation "measure (\<lambda>(p, v). v)") auto

declare isPowerOfTwo.simps [simp del]

declare defaultSplitFrom.simps [simp del]

definition defaultSplit :: "nat \<Rightarrow> nat list" where
  "defaultSplit v = defaultSplitFrom 1 v"

definition splitAmount :: "nat \<Rightarrow> AmountPreference list option \<Rightarrow> error + nat list" where
  "splitAmount amount preference =
     (case preference of
        None \<Rightarrow> Inr (defaultSplit amount)
      | Some ps \<Rightarrow>
          if sum_list (map (\<lambda>p. pref_amount p * pref_count p) ps) = amount then
            (if list_all (\<lambda>p. isPowerOfTwo (pref_amount p)) ps
             then Inr (concat (map (\<lambda>p. replicate (pref_count p) (pref_amount p)) ps))
             else Inl InvalidPreference)
          else Inr (defaultSplit amount))"

definition getDefaultAmountPreference :: "nat \<Rightarrow> AmountPreference list" where
  "getDefaultAmountPreference amount =
     map (\<lambda>a. \<lparr>pref_amount = a, pref_count = 1\<rparr>) (defaultSplit amount)"

text \<open>
  Modelled from the spec: \<open>blindMessage\<close> and \<open>constructProofs\<close> of \<open>DHKE.js\<close> are not among
  the sources. Section 4.2: \<open>blind\<close> samples \<open>r\<close> only when none is supplied;
  \<open>construct_proofs\<close> pairs the signatures element-wise with their \<open>r\<close> and secret, looks up the
  key of the signature's amount (\<open>UnknownDenomination\<close> if missing) and aborts when the
  lengths differ.
\<close>

definition blindMessage :: "primitives \<Rightarrow> string \<Rightarrow> nat option \<Rightarrow> nat \<Rightarrow> (string \<times> nat) \<times> nat" where
  "blindMessage P secret r d =
     (case r of
        Some r' \<Rightarrow> ((blindPoint P secret r', r'), d)
      | None \<Rightarrow> ((blindPoint P secret (randomScalar P d), randomScalar P d), Suc d))"

fun constructProofsFrom ::
  "primitives \<Rightarrow> SerializedBlindedSignature list \<Rightarrow> nat list \<Rightarrow> string list \<Rightarrow> MintKeys
     \<Rightarrow> error + Proof list" where
  "constructProofsFrom P [] rs secrets ks = Inr []"
| "constructProofsFrom P (sg # sgs) (r # rs) (secret # secrets) ks =
     (case map_of (mk_keys ks) (sig_amount sg) of
        None \<Rightarrow> Inl UnknownDenomination
      | Some K \<Rightarrow>
          (case constructProofsFrom P sgs rs secrets ks of
             Inl e \<Rightarrow> Inl e
           | Inr ps \<Rightarrow>
               Inr (\<lparr>proof_id = sig_id sg, proof_amount = sig_amount sg, proof_secret = secret,
                      proof_C = unblindPoint P (sig_C sg) r K\<rparr> # ps)))"
| "constructProofsFrom P sgs rs secrets ks = Inl LengthMismatch"

definition constructProofs ::
  "primitives \<Rightarrow> SerializedBlindedSignature list \<Rightarrow> nat list \<Rightarrow> string list \<Rightarrow> MintKeys
     \<Rightarrow> error + Proof list" where
  "constructProofs P sgs rs secrets ks =
     (if length sgs = length rs \<and> length sgs = length secrets
      then constructProofsFrom P sgs rs secrets ks else Inl LengthMismatch)"

section \<open>The wallet\<close>

subsection \<open>Constructor and key cache\<close>

text \<open>
  \<open>new CashuWallet(mint, keys?, mnemonicOrSeed?)\<close>. The empty string is falsy, so an empty
  mnemonic leaves the wallet without a seed; a \<open>Uint8Array\<close> is always truthy.
\<close>

definition newCashuWallet ::
  "primitives \<Rightarrow> MintKeys option \<Rightarrow> mnemonicOrSeed option \<Rightarrow> error + state" where
  "newCashuWallet P ks mnemonicOrSeed =
     (let s = \<lparr>w_keys = ks,
                w_keysetId = (case ks of None \<Rightarrow> [] | Some k \<Rightarrow> mk_id k),
                w_seed = None, requests = [], draws = 0\<rparr>
      in case mnemonicOrSeed of
           None \<Rightarrow> Inr s
         | Some (Seed sd) \<Rightarrow> Inr (s\<lparr>w_seed := Some sd\<rparr>)
         | Some (Mnemonic m) \<Rightarrow>
             if m = [] then Inr s
             else if \<not> validateMnemonic P m then Inl InvalidMnemonic
             else Inr (s\<lparr>w_seed := Some (deriveSeedFromMnemonic P m)\<rparr>))"

definition fetchKeys :: "CashuMint \<Rightarrow> state \<Rightarrow> (error + MintKeys) \<times> state" where
  "fetchKeys M s =
     (case mint_getKeys M (requests s) None None of
        Inl e \<Rightarrow> (Inl (MintFailure e), s\<lparr>requests := requests s @ [GetKeys None None]\<rparr>)
      | Inr k \<Rightarrow>
          (Inr k, s\<lparr>w_keys := Some k, w_keysetId := mk_id k,
                     requests := requests s @ [GetKeys None None]\<rparr>))"

definition initKeys :: "CashuMint \<Rightarrow> state \<Rightarrow> (error + MintKeys) \<times> state" where
  "initKeys M s =
     (case w_keys s of
        None \<Rightarrow> fetchKeys M s
      | Some k \<Rightarrow> if w_keysetId s = [] then fetchKeys M s else (Inr k, s))"

definition getKeys ::
  "CashuMint \<Rightarrow> SerializedBlindedSignature list \<Rightarrow> string option \<Rightarrow> state
     \<Rightarrow> (error + MintKeys) \<times> state" where
  "getKeys M arr mint s =
     (case initKeys M s of
        (Inl e, s1) \<Rightarrow> (Inl e, s1)
      | (Inr k, s1) \<Rightarrow>
          if arr = [] \<or> sig_id (hd arr) = [] then (Inr k, s1)
          else if w_keysetId s1 = sig_id (hd arr) then (Inr k, s1)
          else (let url = (if mint = None \<or> mint = Some [] \<or> mint = Some (mintUrl M)
                           then None else mint);
                    s2 = s1\<lparr>requests := requests s1 @ [GetKeys (Some (sig_id (hd arr))) url]\<rparr>
                in case mint_getKeys M (requests s1) (Some (sig_id (hd arr))) url of
                     Inl e \<Rightarrow> (Inl (MintFailure e), s2)
                   | Inr k' \<Rightarrow> (Inr k', s2)))"

subsection \<open>Planning outputs\<close>

text \<open>
  The loop of \<open>createBlindedMessages\<close>: \<open>i\<close> is the loop index, \<open>d\<close> the number of random draws
  made so far. The parameter \<open>keysetId\<close> has type \<open>string\<close>, so \<open>keysetId ?? this.keysetId\<close> is
  \<open>keysetId\<close>.
\<close>

fun blindedMessagesFrom ::
  "primitives \<Rightarrow> bytes option \<Rightarrow> string \<Rightarrow> nat option \<Rightarrow> nat list \<Rightarrow> nat \<Rightarrow> nat
     \<Rightarrow> (SerializedBlindedMessage list \<times> string list \<times> nat list) \<times> nat" where
  "blindedMessagesFrom P sd keysetId counter [] i d = (([], [], []), d)"
| "blindedMessagesFrom P sd keysetId counter (a # as) i d =
     (let (secretBytes, deterministicR, d1) =
            (case (sd, counter) of
               (Some s, Some c) \<Rightarrow>
                 (deriveSecret P s keysetId (c + i),
                  Some (bytesToNumber P (deriveBlindingFactor P s keysetId (c + i))), d)
             | _ \<Rightarrow> (randomBytes P d, None, Suc d));
          secret = bytesToHex P secretBytes;
          ((B', r), d2) = blindMessage P secret deterministicR d1;
          ((bms, secrets, rs), d3) = blindedMessagesFrom P sd keysetId counter as (Suc i) d2
      in ((\<lparr>bm_amount = a, bm_B = B', bm_id = keysetId\<rparr> # bms, secret # secrets, r # rs), d3))"

definition createBlindedMessages ::
  "primitives \<Rightarrow> nat list \<Rightarrow> string \<Rightarrow> nat option \<Rightarrow> state
     \<Rightarrow> (error + BlindedTransaction) \<times> state" where
  "createBlindedMessages P amounts keysetId counter s =
     (if counter \<noteq> None \<and> w_seed s = None then (Inl NoSeed, s)
      else (let ((bms, secrets, rs), d) =
                  blindedMessagesFrom P (w_seed s) keysetId counter amounts 0 (draws s)
            in (Inr \<lparr>bt_blindedMessages = bms, bt_secrets = secrets, bt_rs = rs,
                     bt_amounts = amounts\<rparr>,
                s\<lparr>draws := d\<rparr>)))"

definition createRandomBlindedMessages ::
  "primitives \<Rightarrow> nat \<Rightarrow> MintKeys \<Rightarrow> AmountPreference list option \<Rightarrow> nat option \<Rightarrow> state
     \<Rightarrow> (error + BlindedTransaction) \<times> state" where
  "createRandomBlindedMessages P amount keyset amountPreference counter s =
     (case splitAmount amount amountPreference of
        Inl e \<Rightarrow> (Inl e, s)
      | Inr amounts \<Rightarrow> createBlindedMessages P amounts (mk_id keyset) counter s)"

text \<open>
  \<open>Math.log2(0)\<close> is \<open>-Infinity\<close>, and so is its \<open>Math.ceil\<close>; for a positive fee reserve
  \<open>Math.ceil(Math.log2(feeReserve))\<close> is the ceiling, an integer, of the double that the
  engine's \<open>Math.log2\<close> returns. \<open>x || 1\<close> replaces only the falsy 0.
\<close>

datatype jsnumber = NegInfinity | Finite int

definition ceilLog2 :: "primitives \<Rightarrow> nat \<Rightarrow> jsnumber" where
  "ceilLog2 P n = (if n = 0 then NegInfinity else Finite \<lceil>mathLog2 P n\<rceil>)"

definition blankOutputCount :: "primitives \<Rightarrow> nat \<Rightarrow> nat" where
  "blankOutputCount P feeReserve =
     (let count = (case ceilLog2 P feeReserve of
                     NegInfinity \<Rightarrow> NegInfinity
                   | Finite c \<Rightarrow> if c = 0 then Finite 1 else Finite c)
      in case count of
           NegInfinity \<Rightarrow> 0
         | Finite c \<Rightarrow> if c < 0 then 0 else nat c)"

definition createBlankOutputs ::
  "primitives \<Rightarrow> nat \<Rightarrow> string \<Rightarrow> nat option \<Rightarrow> state
     \<Rightarrow> (error + BlindedMessageData) \<times> state" where
  "createBlankOutputs P feeReserve keysetId counter s =
     (let count = blankOutputCount P feeReserve;
          amounts = (if count \<noteq> 0 then replicate count 1 else [])
      in case createBlindedMessages P amounts keysetId counter s of
           (Inl e, s1) \<Rightarrow> (Inl e, s1)
         | (Inr bt, s1) \<Rightarrow>
             (Inr \<lparr>bd_blindedMessages = bt_blindedMessages bt, bd_secrets = bt_secrets bt,
                   bd_rs = bt_rs bt\<rparr>, s1))"

definition sumAmounts :: "Proof list \<Rightarrow> nat" where
  "sumAmounts ps = foldl (\<lambda>total curr. jsAdd total (proof_amount curr)) 0 ps"

text \<open>
  \<open>createSplitPayload\<close>. The counter is advanced past the keep group under the test
  \<open>this._seed && counter\<close>, in which the number 0 is falsy. Its callers pass an amount that is
  at most the total of the proofs, so \<open>totalAmount - amount\<close> is not negative.
\<close>

definition createSplitPayload ::
  "primitives \<Rightarrow> nat \<Rightarrow> Proof list \<Rightarrow> MintKeys \<Rightarrow> AmountPreference list option \<Rightarrow> nat option
     \<Rightarrow> state \<Rightarrow> (error + SplitPayload \<times> BlindedTransaction) \<times> state" where
  "createSplitPayload P amount proofsToSend keyset preference counter s =
     (let totalAmount = sumAmounts proofsToSend
      in case createRandomBlindedMessages P (jsSub totalAmount amount) keyset None counter s of
           (Inl e, s1) \<Rightarrow> (Inl e, s1)
         | (Inr keepBlindedMessages, s1) \<Rightarrow>
             (let counter' =
                    (case counter of
                       None \<Rightarrow> None
                     | Some c \<Rightarrow>
                         if w_seed s1 \<noteq> None \<and> c \<noteq> 0
                         then Some (c + length (bt_secrets keepBlindedMessages))
                         else Some c)
              in case createRandomBlindedMessages P amount keyset preference counter' s1 of
                   (Inl e, s2) \<Rightarrow> (Inl e, s2)
                 | (Inr sendBlindedMessages, s2) \<Rightarrow>
                     (let blindedMessages =
                            \<lparr>bt_blindedMessages = bt_blindedMessages keepBlindedMessages
                                 @ bt_blindedMessages sendBlindedMessages,
                             bt_secrets = bt_secrets keepBlindedMessages
                                 @ bt_secrets sendBlindedMessages,
                             bt_rs = bt_rs keepBlindedMessages @ bt_rs sendBlindedMessages,
                             bt_amounts = bt_amounts keepBlindedMessages
                                 @ bt_amounts sendBlindedMessages\<rparr>;
                          payload = \<lparr>sp_inputs = proofsToSend,
                                     sp_outputs = bt_blindedMessages blindedMessages\<rparr>
                      in (Inr (payload, blindedMessages), s2))))"

definition splitReceive :: "nat \<Rightarrow> nat \<Rightarrow> nat \<times> nat" where
  "splitReceive amount amountAvailable = (jsSub amountAvailable amount, amount)"

subsection \<open>Requests to the mint\<close>

definition callSplit ::
  "CashuMint \<Rightarrow> SplitPayload \<Rightarrow> state \<Rightarrow> (error + SerializedBlindedSignature list) \<times> state" where
  "callSplit M payload s =
     (case mint_split M (requests s) payload of
        Inl e \<Rightarrow> (Inl (MintFailure e), s\<lparr>requests := requests s @ [Split payload]\<rparr>)
      | Inr signatures \<Rightarrow> (Inr signatures, s\<lparr>requests := requests s @ [Split payload]\<rparr>))"

definition callSplitAt ::
  "CashuMint \<Rightarrow> string \<Rightarrow> SplitPayload \<Rightarrow> state
     \<Rightarrow> (error + SerializedBlindedSignature list) \<times> state" where
  "callSplitAt M url payload s =
     (case static_split M (requests s) url payload of
        Inl e \<Rightarrow> (Inl (MintFailure e), s\<lparr>requests := requests s @ [SplitAt url payload]\<rparr>)
      | Inr signatures \<Rightarrow> (Inr signatures, s\<lparr>requests := requests s @ [SplitAt url payload]\<rparr>))"

definition callMelt :: "CashuMint \<Rightarrow> MeltPayload \<Rightarrow> state \<Rightarrow> (error + MeltResponse) \<times> state" where
  "callMelt M payload s =
     (case mint_melt M (requests s) payload of
        Inl e \<Rightarrow> (Inl (MintFailure e), s\<lparr>requests := requests s @ [Melt payload]\<rparr>)
      | Inr r \<Rightarrow> (Inr r, s\<lparr>requests := requests s @ [Melt payload]\<rparr>))"

definition callRestore ::
  "CashuMint \<Rightarrow> SerializedBlindedMessage list \<Rightarrow> state \<Rightarrow> (error + RestoreResponse) \<times> state" where
  "callRestore M outputs s =
     (case mint_restore M (requests s) outputs of
        Inl e \<Rightarrow> (Inl (MintFailure e), s\<lparr>requests := requests s @ [Restore outputs]\<rparr>)
      | Inr r \<Rightarrow> (Inr r, s\<lparr>requests := requests s @ [Restore outputs]\<rparr>))"

subsection \<open>send\<close>

text \<open>The \<open>reduce\<close> over the preference, by which \<open>send\<close> overrides its amount.\<close>

definition preferenceTotal :: "AmountPreference list \<Rightarrow> nat" where
  "preferenceTotal ps =
     foldl (\<lambda>acc curr. jsAdd acc (jsMul (pref_amount curr) (pref_count curr))) 0 ps"

text \<open>
  The first \<open>forEach\<close> of \<open>send\<close>: the result is \<open>(amountAvailable, proofsToSend, proofsToKeep)\<close>.
\<close>

fun selectProofs :: "nat \<Rightarrow> Proof list \<Rightarrow> nat \<Rightarrow> nat \<times> Proof list \<times> Proof list" where
  "selectProofs amount [] amountAvailable = (amountAvailable, [], [])"
| "selectProofs amount (p # ps) amountAvailable =
     (if amountAvailable \<ge> amount
      then (let (a, toSend, toKeep) = selectProofs amount ps amountAvailable
            in (a, toSend, p # toKeep))
      else (let (a, toSend, toKeep) =
                  selectProofs amount ps (jsAdd amountAvailable (proof_amount p))
            in (a, p # toSend, toKeep)))"

text \<open>
  The second \<open>forEach\<close>, over the proofs of the swap: the result is
  \<open>(splitProofsToKeep, splitProofsToSend)\<close>.
\<close>

fun keepOrSend :: "nat \<Rightarrow> Proof list \<Rightarrow> nat \<Rightarrow> Proof list \<times> Proof list" where
  "keepOrSend amountKeep [] amountKeepCounter = ([], [])"
| "keepOrSend amountKeep (p # ps) amountKeepCounter =
     (if amountKeepCounter < amountKeep
      then (let (toKeep, toSend) =
                  keepOrSend amountKeep ps (jsAdd amountKeepCounter (proof_amount p))
            in (p # toKeep, toSend))
      else (let (toKeep, toSend) = keepOrSend amountKeep ps amountKeepCounter
            in (toKeep, p # toSend)))"

definition send ::
  "primitives \<Rightarrow> CashuMint \<Rightarrow> nat \<Rightarrow> Proof list \<Rightarrow> AmountPreference list option \<Rightarrow> nat option
     \<Rightarrow> state \<Rightarrow> (error + SendResponse) \<times> state" where
  "send P M amount0 proofs preference counter s =
     (let amount = (case preference of None \<Rightarrow> amount0 | Some ps \<Rightarrow> preferenceTotal ps)
      in case initKeys M s of
           (Inl e, s1) \<Rightarrow> (Inl e, s1)
         | (Inr keyset, s1) \<Rightarrow>
             (let (amountAvailable, proofsToSend, proofsToKeep) = selectProofs amount proofs 0
              in if amount > amountAvailable then (Inl NotEnoughFunds, s1)
                 else if amount < amountAvailable \<or> preference \<noteq> None then
                   (let (amountKeep, amountSend) = splitReceive amount amountAvailable
                    in case createSplitPayload P amountSend proofsToSend keyset preference counter s1 of
                         (Inl e, s2) \<Rightarrow> (Inl e, s2)
                       | (Inr (payload, blindedMessages), s2) \<Rightarrow>
                           (case callSplit M payload s2 of
                              (Inl e, s3) \<Rightarrow> (Inl e, s3)
                            | (Inr signatures, s3) \<Rightarrow>
                                (case constructProofs P signatures (bt_rs blindedMessages)
                                        (bt_secrets blindedMessages) keyset of
                                   Inl e \<Rightarrow> (Inl e, s3)
                                 | Inr newProofs \<Rightarrow>
                                     (let (splitProofsToKeep, splitProofsToSend) =
                                            keepOrSend amountKeep newProofs 0
                                      in (Inr \<lparr>returnChange = splitProofsToKeep @ proofsToKeep,
                                               send_proofs = splitProofsToSend\<rparr>, s3)))))
                 else (Inr \<lparr>returnChange = proofsToKeep, send_proofs = proofsToSend\<rparr>, s1)))"

subsection \<open>receive\<close>

text \<open>The body of the \<open>try\<close> block of \<open>receiveTokenEntry\<close>, and the method with its \<open>catch\<close>.\<close>

definition receiveTokenEntryTry ::
  "primitives \<Rightarrow> CashuMint \<Rightarrow> TokenEntry \<Rightarrow> AmountPreference list option \<Rightarrow> nat option \<Rightarrow> state
     \<Rightarrow> (error + Proof list) \<times> state" where
  "receiveTokenEntryTry P M tokenEntry preference counter s =
     (let amount = sumAmounts (te_proofs tokenEntry);
          preference' = (case preference of
                           None \<Rightarrow> Some (getDefaultAmountPreference amount)
                         | Some ps \<Rightarrow> Some ps)
      in case initKeys M s of
           (Inl e, s1) \<Rightarrow> (Inl e, s1)
         | (Inr keyset, s1) \<Rightarrow>
             (case createSplitPayload P amount (te_proofs tokenEntry) keyset preference' counter s1 of
                (Inl e, s2) \<Rightarrow> (Inl e, s2)
              | (Inr (payload, blindedMessages), s2) \<Rightarrow>
                  (case callSplitAt M (te_mint tokenEntry) payload s2 of
                     (Inl e, s3) \<Rightarrow> (Inl e, s3)
                   | (Inr signatures, s3) \<Rightarrow>
                       (constructProofs P signatures (bt_rs blindedMessages)
                          (bt_secrets blindedMessages) keyset, s3))))"

definition receiveTokenEntry ::
  "primitives \<Rightarrow> CashuMint \<Rightarrow> TokenEntry \<Rightarrow> AmountPreference list option \<Rightarrow> nat option \<Rightarrow> state
     \<Rightarrow> ReceiveTokenEntryResponse \<times> state" where
  "receiveTokenEntry P M tokenEntry preference counter s =
     (case receiveTokenEntryTry P M tokenEntry preference counter s of
        (Inr newProofs, s1) \<Rightarrow> (\<lparr>rte_proofs = newProofs, rte_proofsWithError = None\<rparr>, s1)
      | (Inl e, s1) \<Rightarrow>
          (\<lparr>rte_proofs = [],
            rte_proofsWithError =
              (if te_proofs tokenEntry \<noteq> [] then Some (te_proofs tokenEntry) else None)\<rparr>, s1))"

text \<open>
  The loop of \<open>receive\<close> with its two accumulators. \<open>receiveTokenEntry\<close> returns normally on
  every input, so the \<open>catch\<close> around its call is never entered.
\<close>

fun receiveLoop ::
  "primitives \<Rightarrow> CashuMint \<Rightarrow> AmountPreference list option \<Rightarrow> nat option \<Rightarrow> TokenEntry list
     \<Rightarrow> TokenEntry list \<times> TokenEntry list \<Rightarrow> state
     \<Rightarrow> (TokenEntry list \<times> TokenEntry list) \<times> state" where
  "receiveLoop P M preference counter [] acc s = (acc, s)"
| "receiveLoop P M preference counter (tokenEntry # rest) (tokenEntries, tokenEntriesWithError) s =
     (if te_proofs tokenEntry = []
      then receiveLoop P M preference counter rest (tokenEntries, tokenEntriesWithError) s
      else (case receiveTokenEntry P M tokenEntry preference counter s of
              (r, s1) \<Rightarrow>
                if (case rte_proofsWithError r of None \<Rightarrow> False | Some ws \<Rightarrow> ws \<noteq> [])
                then receiveLoop P M preference counter rest
                       (tokenEntries, tokenEntriesWithError @ [tokenEntry]) s1
                else receiveLoop P M preference counter rest
                       (tokenEntries @ [\<lparr>te_mint = te_mint tokenEntry, te_proofs = rte_proofs r\<rparr>],
                        tokenEntriesWithError) s1))"

definition receive ::
  "primitives \<Rightarrow> CashuMint \<Rightarrow> tokenInput \<Rightarrow> AmountPreference list option \<Rightarrow> nat option \<Rightarrow> state
     \<Rightarrow> (error + ReceiveResponse) \<times> state" where
  "receive P M token preference counter s =
     (case (case token of
              Encoded str \<Rightarrow>
                (case getDecodedToken P str of
                   Inl e \<Rightarrow> Inl (MalformedToken e)
                 | Inr t \<Rightarrow> Inr (tk_token (cleanToken P t)))
            | Decoded t \<Rightarrow> Inr (tk_token t)) of
        Inl e \<Rightarrow> (Inl e, s)
      | Inr decodedToken \<Rightarrow>
          (case receiveLoop P M preference counter decodedToken ([], []) s of
             ((tokenEntries, tokenEntriesWithError), s1) \<Rightarrow>
               (Inr \<lparr>rr_token = \<lparr>tk_token = tokenEntries, tk_memo = None\<rparr>,
                     rr_tokensWithErrors =
                       (if tokenEntriesWithError \<noteq> []
                        then Some \<lparr>tk_token = tokenEntriesWithError, tk_memo = None\<rparr>
                        else None)\<rparr>, s1)))"

subsection \<open>restore and meltTokens\<close>

definition restore ::
  "primitives \<Rightarrow> CashuMint \<Rightarrow> nat \<Rightarrow> nat \<Rightarrow> string \<Rightarrow> state \<Rightarrow> (error + Proof list) \<times> state" where
  "restore P M start count keysetId s =
     (if w_seed s = None then (Inl RestoreWithoutSeed, s)
      else case createBlindedMessages P (replicate count 0) keysetId (Some start) s of
             (Inl e, s1) \<Rightarrow> (Inl e, s1)
           | (Inr bt, s1) \<Rightarrow>
               (case callRestore M (bt_blindedMessages bt) s1 of
                  (Inl e, s2) \<Rightarrow> (Inl e, s2)
                | (Inr r, s2) \<Rightarrow>
                    (let returned = map bm_B (rs_outputs r);
                         validRs = map snd (filter (\<lambda>(b, x). bm_B b \<in> set returned)
                                              (zip (bt_blindedMessages bt) (bt_rs bt)));
                         validSecrets = map snd (filter (\<lambda>(b, x). bm_B b \<in> set returned)
                                                   (zip (bt_blindedMessages bt) (bt_secrets bt)))
                     in case getKeys M (rs_promises r) None s2 of
                          (Inl e, s3) \<Rightarrow> (Inl e, s3)
                        | (Inr ks, s3) \<Rightarrow>
                            (constructProofs P (rs_promises r) validRs validSecrets ks, s3))))"

definition meltTokens ::
  "primitives \<Rightarrow> CashuMint \<Rightarrow> MeltQuoteResponse \<Rightarrow> Proof list \<Rightarrow> string option \<Rightarrow> nat option
     \<Rightarrow> state \<Rightarrow> (error + MeltTokensResponse) \<times> state" where
  "meltTokens P M meltQuote proofsToSend keysetId counter s =
     (case createBlankOutputs P (mq_fee_reserve meltQuote)
             (case keysetId of None \<Rightarrow> w_keysetId s | Some k \<Rightarrow> k) counter s of
        (Inl e, s1) \<Rightarrow> (Inl e, s1)
      | (Inr bd, s1) \<Rightarrow>
          (let meltPayload = \<lparr>mp_quote = mq_quote meltQuote, mp_inputs = proofsToSend,
                              mp_outputs = bd_blindedMessages bd\<rparr>
           in case callMelt M meltPayload s1 of
                (Inl e, s2) \<Rightarrow> (Inl e, s2)
              | (Inr meltResponse, s2) \<Rightarrow>
                  (let paid = (case mr_paid meltResponse of None \<Rightarrow> False | Some b \<Rightarrow> b)
                   in case mr_change meltResponse of
                        None \<Rightarrow>
                          (Inr \<lparr>isPaid = paid, preimage = mr_payment_preimage meltResponse,
                                change = []\<rparr>, s2)
                      | Some returned \<Rightarrow>
                          (case getKeys M returned None s2 of
                             (Inl e, s3) \<Rightarrow> (Inl e, s3)
                           | (Inr ks, s3) \<Rightarrow>
                               (case constructProofs P returned (bd_rs bd) (bd_secrets bd) ks of
                                  Inl e \<Rightarrow> (Inl e, s3)
                                | Inr ps \<Rightarrow>
                                    (Inr \<lparr>isPaid = paid,
                                          preimage = mr_payment_preimage meltResponse,
                                          change = ps\<rparr>, s3))))))"

section \<open>A mint that signs what it is asked to sign\<close>

text \<open>
  The swap endpoint of the mint, whenever it answers, returns one signature per output of the
  request, in the order of the request and with the amounts of the request.
\<close>

definition honestSplit :: "CashuMint \<Rightarrow> bool" where
  "honestSplit M =
     (\<forall>h payload signatures. mint_split M h payload = Inr signatures \<longrightarrow>
          map sig_amount signatures = map bm_amount (sp_outputs payload))"

section \<open>Concrete inputs for the examples\<close>

text \<open>
  A mint that signs every output it is sent with the amount asked for (and knows only the
  url \<open>''mint''\<close>), toy primitives, and a wallet whose keys are cached.
\<close>

definition exKeys :: MintKeys where
  "exKeys = \<lparr>mk_id = ''k1'', mk_keys = [(1, ''K1''), (2, ''K2''), (4, ''K4'')]\<rparr>"

definition exPrimitives :: primitives where
  "exPrimitives =
     \<lparr>deriveSecret = (\<lambda>sd kid i. [i]),
      deriveBlindingFactor = (\<lambda>sd kid i. [i, i]),
      bytesToNumber = sum_list,
      bytesToHex = map (\<lambda>b. if b = 0 then CHR ''0'' else if b = 1 then CHR ''1''
                              else if b = 2 then CHR ''2'' else CHR ''f''),
      randomBytes = (\<lambda>n. [n]),
      randomScalar = (\<lambda>n. n),
      blindPoint = (\<lambda>secret r. secret),
      unblindPoint = (\<lambda>C' r K. C'),
      validateMnemonic = (\<lambda>m. True),
      deriveSeedFromMnemonic = (\<lambda>m. []),
      getDecodedToken = (\<lambda>str. Inl str),
      cleanToken = (\<lambda>t. t),
      mathLog2 = (\<lambda>n. log 2 (real n))\<rparr>"

definition exSign :: "SerializedBlindedMessage \<Rightarrow> SerializedBlindedSignature" where
  "exSign b = \<lparr>sig_id = bm_id b, sig_amount = bm_amount b, sig_C = bm_B b\<rparr>"

definition exMint :: CashuMint where
  "exMint =
     \<lparr>mintUrl = ''mint'',
      mint_getKeys = (\<lambda>h kid url. Inr exKeys),
      mint_split = (\<lambda>h payload. Inr (map exSign (sp_outputs payload))),
      static_split = (\<lambda>h url payload.
         if url = ''mint'' then Inr (map exSign (sp_outputs payload)) else Inl ''unreachable''),
      mint_melt = (\<lambda>h payload.
         Inr \<lparr>mr_paid = None, mr_payment_preimage = None, mr_change = None\<rparr>),
      mint_restore = (\<lambda>h outputs.
         Inr \<lparr>rs_outputs = outputs, rs_promises = map exSign outputs\<rparr>)\<rparr>"

definition exProof :: "nat \<Rightarrow> Proof" where
  "exProof a = \<lparr>proof_id = ''k0'', proof_amount = a, proof_secret = ''s'', proof_C = ''C''\<rparr>"

definition exState :: "bytes option \<Rightarrow> state" where
  "exState sd =
     \<lparr>w_keys = Some exKeys, w_keysetId = ''k1'', w_seed = sd, requests = [], draws = 0\<rparr>"

definition exQuote :: MeltQuoteResponse where
  "exQuote = \<lparr>mq_quote = ''q'', mq_amount = 10, mq_fee_reserve = 2\<rparr>"

definition exEmptyWallet :: state where
  "exEmptyWallet = \<lparr>w_keys = None, w_keysetId = [], w_seed = None, requests = [], draws = 0\<rparr>"

text \<open>A mint that pays the quote, answers without \<open>paid\<close> and returns one change signature.\<close>

definition exChangeMint :: CashuMint where
  "exChangeMint = exMint\<lparr>mint_melt := (\<lambda>h payload.
     Inr \<lparr>mr_paid = None, mr_payment_preimage = Some ''pre'',
          mr_change = Some [\<lparr>sig_id = ''k1'', sig_amount = 2, sig_C = ''c2''\<rparr>]\<rparr>)\<rparr>"

section \<open>Properties of the output planner\<close>

lemma floorlog_2_power_53: "floorlog 2 (2 ^ 53) = 54"
  using floorlog_power [of 1 2 53] by (simp add: floorlog_def)

lemma roundToDouble_exact: "n \<le> 2 ^ 53 \<Longrightarrow> roundToDouble n = n"
proof (cases "n < 2 ^ 53")
  case True
  then show ?thesis by (simp add: roundToDouble_def)
next
  case False
  assume "n \<le> 2 ^ 53"
  with False have n: "n = 2 ^ 53" by simp
  show ?thesis
    unfolding n roundToDouble_def floorlog_2_power_53 by simp
qed

lemma jsAdd_exact: "a + b \<le> 2 ^ 53 \<Longrightarrow> jsAdd a b = a + b"
  by (simp add: jsAdd_def roundToDouble_exact)

lemma jsSub_exact: "a - b \<le> 2 ^ 53 \<Longrightarrow> jsSub a b = a - b"
  by (simp add: jsSub_def roundToDouble_exact)

lemma jsMul_exact: "a * b \<le> 2 ^ 53 \<Longrightarrow> jsMul a b = a * b"
  by (simp add: jsMul_def roundToDouble_exact)

lemma blankOutputCount_0: "blankOutputCount P 0 = 0"
  by (simp add: blankOutputCount_def ceilLog2_def)

lemma blankOutputCount_pos:
  "0 < n \<Longrightarrow>
     blankOutputCount P n = (if \<lceil>mathLog2 P n\<rceil> = 0 then 1 else nat \<lceil>mathLog2 P n\<rceil>)"
  by (simp add: blankOutputCount_def ceilLog2_def)

lemma blindedMessagesFrom_length:
  "blindedMessagesFrom P sd kid counter as i d = ((bms, secrets, rs), d') \<Longrightarrow>
     length bms = length as \<and> length secrets = length as \<and> length rs = length as"
proof (induction as arbitrary: i d bms secrets rs d')
  case Nil
  then show ?case by simp
next
  case (Cons a as)
  then show ?case
    by (auto simp add: Let_def split: prod.splits)
qed

lemma blindedMessagesFrom_amounts:
  "blindedMessagesFrom P sd kid counter as i d = ((bms, secrets, rs), d') \<Longrightarrow>
     map bm_amount bms = as \<and> map bm_id bms = replicate (length as) kid"
proof (induction as arbitrary: i d bms secrets rs d')
  case Nil
  then show ?case by simp
next
  case (Cons a as)
  then show ?case
    by (auto simp add: Let_def split: prod.splits)
qed

text \<open>
  With a seed and a counter the loop draws nothing: output \<open>j\<close> is derived at index
  \<open>counter + i + j\<close>.
\<close>

lemma blindedMessagesFrom_deterministic:
  "blindedMessagesFrom P (Some sd) kid (Some c) as i d =
     ((map (\<lambda>(a, j). \<lparr>bm_amount = a,
                        bm_B = blindPoint P (bytesToHex P (deriveSecret P sd kid (c + i + j)))
                                 (bytesToNumber P (deriveBlindingFactor P sd kid (c + i + j))),
                        bm_id = kid\<rparr>) (zip as [0 ..< length as]),
       map (\<lambda>j. bytesToHex P (deriveSecret P sd kid (c + i + j))) [0 ..< length as],
       map (\<lambda>j. bytesToNumber P (deriveBlindingFactor P sd kid (c + i + j))) [0 ..< length as]),
      d)"
proof (induction as arbitrary: i)
  case Nil
  then show ?case by simp
next
  case (Cons a as)
  have up: "[0 ..< length (a # as)] = 0 # map Suc [0 ..< length as]"
    by (simp add: upt_conv_Cons map_Suc_upt del: upt_Suc)
  show ?case
    unfolding up by (simp add: Cons.IH blindMessage_def zip_map2 o_def split_def Let_def)
qed

lemma createBlindedMessages_seeded:
  assumes "w_seed s = Some sd"
  shows "createBlindedMessages P amounts kid (Some c) s =
     (Inr \<lparr>bt_blindedMessages =
              map (\<lambda>(a, j). \<lparr>bm_amount = a,
                     bm_B = blindPoint P (bytesToHex P (deriveSecret P sd kid (c + j)))
                              (bytesToNumber P (deriveBlindingFactor P sd kid (c + j))),
                     bm_id = kid\<rparr>) (zip amounts [0 ..< length amounts]),
            bt_secrets = map (\<lambda>j. bytesToHex P (deriveSecret P sd kid (c + j)))
                           [0 ..< length amounts],
            bt_rs = map (\<lambda>j. bytesToNumber P (deriveBlindingFactor P sd kid (c + j)))
                      [0 ..< length amounts],
            bt_amounts = amounts\<rparr>, s)"
  using assms by (simp add: createBlindedMessages_def blindedMessagesFrom_deterministic)

lemma createBlindedMessages_ok:
  assumes "counter = None \<or> w_seed s \<noteq> None"
  shows "\<exists>bt d. createBlindedMessages P amounts kid counter s = (Inr bt, s\<lparr>draws := d\<rparr>)
           \<and> map bm_amount (bt_blindedMessages bt) = amounts
           \<and> map bm_id (bt_blindedMessages bt) = replicate (length amounts) kid
           \<and> length (bt_secrets bt) = length amounts
           \<and> length (bt_rs bt) = length amounts
           \<and> bt_amounts bt = amounts"
proof -
  obtain bms secrets rs d where
    run: "blindedMessagesFrom P (w_seed s) kid counter amounts 0 (draws s) = ((bms, secrets, rs), d)"
    by (metis prod_cases3 surj_pair)
  from blindedMessagesFrom_length [OF run] blindedMessagesFrom_amounts [OF run] assms run
  show ?thesis
    by (auto simp add: createBlindedMessages_def)
qed

lemma createBlankOutputs_ok:
  assumes "counter = None \<or> w_seed s \<noteq> None"
  shows "\<exists>bd d. createBlankOutputs P feeReserve kid counter s = (Inr bd, s\<lparr>draws := d\<rparr>)
           \<and> map bm_amount (bd_blindedMessages bd) = replicate (blankOutputCount P feeReserve) 1
           \<and> map bm_id (bd_blindedMessages bd) = replicate (blankOutputCount P feeReserve) kid
           \<and> length (bd_secrets bd) = blankOutputCount P feeReserve
           \<and> length (bd_rs bd) = blankOutputCount P feeReserve"
proof -
  define amounts :: "nat list" where "amounts = replicate (blankOutputCount P feeReserve) 1"
  have amounts: "(if blankOutputCount P feeReserve \<noteq> 0
                  then replicate (blankOutputCount P feeReserve) 1 else []) = amounts"
    by (simp add: amounts_def)
  from createBlindedMessages_ok [OF assms, of P amounts kid] obtain bt d where
    run: "createBlindedMessages P amounts kid counter s = (Inr bt, s\<lparr>draws := d\<rparr>)"
    and am: "map bm_amount (bt_blindedMessages bt) = amounts"
    and ids: "map bm_id (bt_blindedMessages bt) = replicate (length amounts) kid"
    and ls: "length (bt_secrets bt) = length amounts"
    and lr: "length (bt_rs bt) = length amounts"
    by blast
  have "createBlankOutputs P feeReserve kid counter s =
          (Inr \<lparr>bd_blindedMessages = bt_blindedMessages bt, bd_secrets = bt_secrets bt,
                bd_rs = bt_rs bt\<rparr>, s\<lparr>draws := d\<rparr>)"
    unfolding createBlankOutputs_def Let_def amounts by (simp add: run)
  with am ids ls lr show ?thesis
    by (intro exI [of _ "\<lparr>bd_blindedMessages = bt_blindedMessages bt, bd_secrets = bt_secrets bt,
                bd_rs = bt_rs bt\<rparr>"] exI [of _ d]) (simp add: amounts_def)
qed

lemma createBlindedMessages_NoSeed:
  assumes "counter \<noteq> None" and "w_seed s = None"
  shows "createBlindedMessages P amounts kid counter s = (Inl NoSeed, s)"
  using assms by (simp add: createBlindedMessages_def)

lemma createBlankOutputs_NoSeed:
  assumes "counter \<noteq> None" and "w_seed s = None"
  shows "createBlankOutputs P feeReserve kid counter s = (Inl NoSeed, s)"
  using assms by (simp add: createBlankOutputs_def Let_def createBlindedMessages_def)

lemma fetchKeys_frame:
  assumes "fetchKeys M s = (r, s1)"
  shows "w_seed s1 = w_seed s \<and> draws s1 = draws s
         \<and> requests s1 = requests s @ [GetKeys None None] \<and> r \<noteq> Inl NoSeed"
  using assms by (auto simp add: fetchKeys_def split: sum.splits)

lemma initKeys_frame:
  assumes "initKeys M s = (r, s1)"
  shows "w_seed s1 = w_seed s \<and> draws s1 = draws s
         \<and> (requests s1 = requests s \<or> requests s1 = requests s @ [GetKeys None None])
         \<and> r \<noteq> Inl NoSeed"
  using assms fetchKeys_frame [of M s r s1]
  by (auto simp add: initKeys_def split: option.splits if_splits)

lemma getKeys_frame:
  assumes "getKeys M arr mint s = (r, s1)"
  shows "w_seed s1 = w_seed s \<and> draws s1 = draws s
         \<and> (\<exists>rest. requests s1 = requests s @ rest) \<and> r \<noteq> Inl NoSeed"
proof -
  obtain r0 s0 where ik: "initKeys M s = (r0, s0)" by (cases "initKeys M s")
  from initKeys_frame [OF ik] assms ik show ?thesis
    by (auto simp add: getKeys_def Let_def split: sum.splits if_splits)
qed

lemma callMelt_frame:
  assumes "callMelt M payload s = (r, s1)"
  shows "s1 = s\<lparr>requests := requests s @ [Melt payload]\<rparr> \<and> r \<noteq> Inl NoSeed"
  using assms by (auto simp add: callMelt_def split: sum.splits)

lemma constructProofsFrom_not_NoSeed:
  "constructProofsFrom P sgs rs secrets ks \<noteq> Inl NoSeed"
  by (induction P sgs rs secrets ks rule: constructProofsFrom.induct)
     (auto split: option.splits sum.splits)

lemma constructProofs_not_NoSeed: "constructProofs P sgs rs secrets ks \<noteq> Inl NoSeed"
  by (simp add: constructProofs_def constructProofsFrom_not_NoSeed)

text \<open>
  C8. Determinism of the output planner: in two invocations of \<open>createBlindedMessages\<close> with
  the same seed, keyset id, counter and amounts the blinded messages, secrets and blinding
  factors are the same, whatever the rest of the wallet state and whatever the random source
  would give; and the invocation leaves the state as it is, so no random value is drawn.
\<close>

theorem createBlindedMessages_two_runs:
  assumes "w_seed s1 = Some sd" and "w_seed s2 = Some sd"
  shows "fst (createBlindedMessages (P\<lparr>randomBytes := rb, randomScalar := rsc\<rparr>)
                amounts keysetId (Some c) s2)
           = fst (createBlindedMessages P amounts keysetId (Some c) s1)
         \<and> snd (createBlindedMessages P amounts keysetId (Some c) s1) = s1"
  using assms by (simp add: createBlindedMessages_seeded)

theorem createBlindedMessages_two_runs_witness:
  "w_seed (exState (Some [7])) = Some [7]
   \<and> w_seed ((exState (Some [7]))\<lparr>draws := 5, w_keysetId := ''k2''\<rparr>) = Some [7]
   \<and> fst (createBlindedMessages (exPrimitives\<lparr>randomBytes := (\<lambda>n. [9]), randomScalar := (\<lambda>n. 9)\<rparr>)
             [1, 2] ''k1'' (Some 0) ((exState (Some [7]))\<lparr>draws := 5, w_keysetId := ''k2''\<rparr>))
        = fst (createBlindedMessages exPrimitives [1, 2] ''k1'' (Some 0) (exState (Some [7])))
   \<and> snd (createBlindedMessages exPrimitives [1, 2] ''k1'' (Some 0) (exState (Some [7])))
        = exState (Some [7])"
proof -
  have h1: "w_seed (exState (Some [7])) = Some [7]"
    by (simp add: exState_def)
  have h2: "w_seed ((exState (Some [7]))\<lparr>draws := 5, w_keysetId := ''k2''\<rparr>) = Some [7]"
    by (simp add: exState_def)
  from createBlindedMessages_two_runs [OF h1 h2] h1 h2 show ?thesis
    by blast
qed



section \<open>meltTokens\<close>

lemma exPrimitives_simps [simp]:
  "deriveSecret exPrimitives sd kid i = [i]"
  "deriveBlindingFactor exPrimitives sd kid i = [i, i]"
  "bytesToNumber exPrimitives = sum_list"
  "bytesToHex exPrimitives = map (\<lambda>b. if b = 0 then CHR ''0'' else if b = 1 then CHR ''1''
                              else if b = 2 then CHR ''2'' else CHR ''f'')"
  "randomBytes exPrimitives n = [n]"
  "randomScalar exPrimitives n = n"
  "blindPoint exPrimitives secret r = secret"
  "unblindPoint exPrimitives C' r K = C'"
  "mathLog2 exPrimitives n = log 2 (real n)"
  by (simp_all add: exPrimitives_def)

lemma blankOutputCount_2: "blankOutputCount exPrimitives 2 = 1"
  by (simp add: blankOutputCount_pos)

text \<open>
  C10. With the \<open>keysetId\<close> argument omitted, the first request \<open>meltTokens\<close> sends is the melt
  request itself (no key request precedes it), and its blank outputs carry the keyset id cached
  in the wallet; for a wallet that the constructor built without keys this is the empty string.
\<close>

theorem meltTokens_cached_keysetId:
  assumes "counter = None \<or> w_seed s \<noteq> None"
  shows "\<exists>outputs rest.
           requests (snd (meltTokens P M meltQuote proofsToSend None counter s))
             = requests s @ Melt \<lparr>mp_quote = mq_quote meltQuote, mp_inputs = proofsToSend,
                                  mp_outputs = outputs\<rparr> # rest
           \<and> map bm_id outputs
               = replicate (blankOutputCount P (mq_fee_reserve meltQuote)) (w_keysetId s)
           \<and> (newCashuWallet P None mnemonicOrSeed = Inr s \<longrightarrow>
                map bm_id outputs = replicate (blankOutputCount P (mq_fee_reserve meltQuote)) [])"
proof -
  from createBlankOutputs_ok [OF assms, of P "mq_fee_reserve meltQuote" "w_keysetId s"]
  obtain bd d where
    blank: "createBlankOutputs P (mq_fee_reserve meltQuote) (w_keysetId s) counter s
              = (Inr bd, s\<lparr>draws := d\<rparr>)"
    and ids: "map bm_id (bd_blindedMessages bd)
                = replicate (blankOutputCount P (mq_fee_reserve meltQuote)) (w_keysetId s)"
    by blast
  define payload where
    "payload = \<lparr>mp_quote = mq_quote meltQuote, mp_inputs = proofsToSend,
                mp_outputs = bd_blindedMessages bd\<rparr>"
  obtain r2 s2 where melt: "callMelt M payload (s\<lparr>draws := d\<rparr>) = (r2, s2)"
    by (cases "callMelt M payload (s\<lparr>draws := d\<rparr>)")
  from callMelt_frame [OF melt] have s2: "requests s2 = requests s @ [Melt payload]"
    by simp
  have "\<exists>rest. requests (snd (meltTokens P M meltQuote proofsToSend None counter s))
                 = requests s @ Melt payload # rest"
  proof (cases r2)
    case (Inl e)
    with blank melt s2 show ?thesis
      by (simp add: meltTokens_def Let_def payload_def [symmetric])
  next
    case (Inr resp)
    show ?thesis
    proof (cases "mr_change resp")
      case None
      with Inr blank melt s2 show ?thesis
        by (simp add: meltTokens_def Let_def payload_def [symmetric])
    next
      case (Some returned)
      obtain r3 s3 where gk: "getKeys M returned None s2 = (r3, s3)"
        by (cases "getKeys M returned None s2")
      from getKeys_frame [OF gk] s2 obtain rest where
        "requests s3 = requests s @ Melt payload # rest"
        by auto
      with Some Inr blank melt gk show ?thesis
        by (auto simp add: meltTokens_def Let_def payload_def [symmetric] split: sum.splits)
    qed
  qed
  moreover have "newCashuWallet P None mnemonicOrSeed = Inr s \<Longrightarrow> w_keysetId s = []"
    by (auto simp add: newCashuWallet_def Let_def split: option.splits mnemonicOrSeed.splits if_splits)
  ultimately show ?thesis
    using ids by (auto simp add: payload_def)
qed


theorem meltTokens_cached_keysetId_witness:
  "((None :: nat option) = None \<or> w_seed exEmptyWallet \<noteq> None)
   \<and> newCashuWallet exPrimitives None None = Inr exEmptyWallet
   \<and> (\<exists>outputs rest.
         requests (snd (meltTokens exPrimitives exMint exQuote [exProof 4] None None exEmptyWallet))
           = Melt \<lparr>mp_quote = ''q'', mp_inputs = [exProof 4], mp_outputs = outputs\<rparr> # rest
         \<and> map bm_id outputs = [[]])"
proof -
  have h: "(None :: nat option) = None \<or> w_seed exEmptyWallet \<noteq> None"
    by simp
  have new: "newCashuWallet exPrimitives None None = Inr exEmptyWallet"
    by (simp add: newCashuWallet_def exEmptyWallet_def)
  from meltTokens_cached_keysetId [OF h, of exPrimitives exMint exQuote "[exProof 4]" None] new
  have "\<exists>outputs rest.
         requests (snd (meltTokens exPrimitives exMint exQuote [exProof 4] None None exEmptyWallet))
           = Melt \<lparr>mp_quote = ''q'', mp_inputs = [exProof 4], mp_outputs = outputs\<rparr> # rest
         \<and> map bm_id outputs = [[]]"
    by (simp add: exQuote_def exEmptyWallet_def blankOutputCount_2)
  with h new show ?thesis by blast
qed

lemma exBlank:
  "createBlankOutputs exPrimitives 2 ''k1'' None (exState None)
     = (Inr \<lparr>bd_blindedMessages = [\<lparr>bm_amount = 1, bm_B = ''0'', bm_id = ''k1''\<rparr>],
             bd_secrets = [''0''], bd_rs = [1]\<rparr>, (exState None)\<lparr>draws := 2\<rparr>)"
  by (simp add: createBlankOutputs_def blankOutputCount_2 createBlindedMessages_def
        blindMessage_def exState_def Let_def)


text \<open>
  C7. Once the blank outputs are planned and the mint has answered the melt request:
  if the answer has no \<open>change\<close>, \<open>meltTokens\<close> returns \<open>change = []\<close>; if it has one, the
  result is that of \<open>constructProofs\<close> on the returned signatures with the blinding factors
  and secrets of the blank outputs (and the keys \<open>getKeys\<close> gives for them); and whenever the
  answer has no \<open>paid\<close>, a returned result has \<open>isPaid = False\<close>.
\<close>

theorem meltTokens_response:
  assumes blank: "createBlankOutputs P (mq_fee_reserve meltQuote)
                    (case keysetId of None \<Rightarrow> w_keysetId s | Some k \<Rightarrow> k) counter s = (Inr bd, s1)"
      and melt: "callMelt M \<lparr>mp_quote = mq_quote meltQuote, mp_inputs = proofsToSend,
                              mp_outputs = bd_blindedMessages bd\<rparr> s1 = (Inr meltResponse, s2)"
  shows "(mr_change meltResponse = None \<longrightarrow>
            meltTokens P M meltQuote proofsToSend keysetId counter s
              = (Inr \<lparr>isPaid = (case mr_paid meltResponse of None \<Rightarrow> False | Some b \<Rightarrow> b),
                      preimage = mr_payment_preimage meltResponse, change = []\<rparr>, s2))
         \<and> (\<forall>returned. mr_change meltResponse = Some returned \<longrightarrow>
               fst (meltTokens P M meltQuote proofsToSend keysetId counter s)
                 = (case getKeys M returned None s2 of
                      (Inl e, s3) \<Rightarrow> Inl e
                    | (Inr ks, s3) \<Rightarrow>
                        (case constructProofs P returned (bd_rs bd) (bd_secrets bd) ks of
                           Inl e \<Rightarrow> Inl e
                         | Inr ps \<Rightarrow>
                             Inr \<lparr>isPaid = (case mr_paid meltResponse of
                                              None \<Rightarrow> False | Some b \<Rightarrow> b),
                                  preimage = mr_payment_preimage meltResponse, change = ps\<rparr>)))
         \<and> (\<forall>r. fst (meltTokens P M meltQuote proofsToSend keysetId counter s) = Inr r \<longrightarrow>
               mr_paid meltResponse = None \<longrightarrow> \<not> isPaid r)"
  using blank melt
  by (auto simp add: meltTokens_def Let_def split: option.splits sum.splits prod.splits)

theorem meltTokens_response_witness:
  "fst (meltTokens exPrimitives exChangeMint exQuote [exProof 4] None None (exState None))
     = Inr \<lparr>isPaid = False, preimage = Some ''pre'',
            change = [\<lparr>proof_id = ''k1'', proof_amount = 2, proof_secret = ''0'',
                       proof_C = ''c2''\<rparr>]\<rparr>
   \<and> fst (meltTokens exPrimitives exMint exQuote [exProof 4] None None (exState None))
     = Inr \<lparr>isPaid = False, preimage = None, change = []\<rparr>"
proof -
  define bd where
    "bd = \<lparr>bd_blindedMessages = [\<lparr>bm_amount = 1, bm_B = ''0'', bm_id = ''k1''\<rparr>],
           bd_secrets = [''0''], bd_rs = [1]\<rparr>"
  define s2 where
    "s2 = (exState None)\<lparr>draws := 2,
            requests := [Melt \<lparr>mp_quote = ''q'', mp_inputs = [exProof 4],
                               mp_outputs = bd_blindedMessages bd\<rparr>]\<rparr>"
  have blank: "createBlankOutputs exPrimitives (mq_fee_reserve exQuote)
         (case (None :: string option) of None \<Rightarrow> w_keysetId (exState None) | Some k \<Rightarrow> k)
         None (exState None) = (Inr bd, (exState None)\<lparr>draws := 2\<rparr>)"
    using exBlank by (simp add: exQuote_def exState_def bd_def)
  have melt1: "callMelt exChangeMint
         \<lparr>mp_quote = mq_quote exQuote, mp_inputs = [exProof 4],
          mp_outputs = bd_blindedMessages bd\<rparr> ((exState None)\<lparr>draws := 2\<rparr>)
       = (Inr \<lparr>mr_paid = None, mr_payment_preimage = Some ''pre'',
               mr_change = Some [\<lparr>sig_id = ''k1'', sig_amount = 2, sig_C = ''c2''\<rparr>]\<rparr>, s2)"
    by (simp add: callMelt_def exChangeMint_def exMint_def exQuote_def exState_def s2_def)
  have melt2: "callMelt exMint
         \<lparr>mp_quote = mq_quote exQuote, mp_inputs = [exProof 4],
          mp_outputs = bd_blindedMessages bd\<rparr> ((exState None)\<lparr>draws := 2\<rparr>)
       = (Inr \<lparr>mr_paid = None, mr_payment_preimage = None, mr_change = None\<rparr>, s2)"
    by (simp add: callMelt_def exMint_def exQuote_def exState_def s2_def)
  have keys: "getKeys exChangeMint [\<lparr>sig_id = ''k1'', sig_amount = 2, sig_C = ''c2''\<rparr>] None s2
       = (Inr exKeys, s2)"
    by (simp add: getKeys_def initKeys_def s2_def exState_def)
  have proofs: "constructProofs exPrimitives [\<lparr>sig_id = ''k1'', sig_amount = 2, sig_C = ''c2''\<rparr>]
         (bd_rs bd) (bd_secrets bd) exKeys
       = Inr [\<lparr>proof_id = ''k1'', proof_amount = 2, proof_secret = ''0'', proof_C = ''c2''\<rparr>]"
    by (simp add: constructProofs_def bd_def exKeys_def exPrimitives_def)
  from meltTokens_response [OF blank melt1] keys proofs
  have "fst (meltTokens exPrimitives exChangeMint exQuote [exProof 4] None None (exState None))
     = Inr \<lparr>isPaid = False, preimage = Some ''pre'',
            change = [\<lparr>proof_id = ''k1'', proof_amount = 2, proof_secret = ''0'',
                       proof_C = ''c2''\<rparr>]\<rparr>"
    by simp
  moreover from meltTokens_response [OF blank melt2]
  have "fst (meltTokens exPrimitives exMint exQuote [exProof 4] None None (exState None))
     = Inr \<lparr>isPaid = False, preimage = None, change = []\<rparr>"
    by simp
  ultimately show ?thesis by simp
qed

section \<open>Where the no-seed error can arise\<close>

lemma createBlindedMessages_frame:
  assumes "createBlindedMessages P amounts kid counter s = (r, s1)"
  shows "w_seed s1 = w_seed s \<and> requests s1 = requests s \<and> w_keys s1 = w_keys s
         \<and> w_keysetId s1 = w_keysetId s
         \<and> ((r = Inl NoSeed) = (counter \<noteq> None \<and> w_seed s = None))
         \<and> (\<forall>e. r = Inl e \<longrightarrow> e = NoSeed \<and> s1 = s)"
  using assms by (auto simp add: createBlindedMessages_def split: if_splits prod.splits)

lemma splitAmount_error: "splitAmount amount preference = Inl e \<Longrightarrow> e = InvalidPreference"
  by (auto simp add: splitAmount_def split: option.splits if_splits)

lemma createRandomBlindedMessages_frame:
  assumes "createRandomBlindedMessages P amount ks preference counter s = (r, s1)"
  shows "w_seed s1 = w_seed s \<and> requests s1 = requests s
         \<and> (r = Inl NoSeed \<longrightarrow> counter \<noteq> None \<and> w_seed s = None)"
proof (cases "splitAmount amount preference")
  case (Inl e)
  with assms splitAmount_error [OF Inl] show ?thesis
    by (auto simp add: createRandomBlindedMessages_def)
next
  case (Inr amounts)
  with assms have "createBlindedMessages P amounts (mk_id ks) counter s = (r, s1)"
    by (simp add: createRandomBlindedMessages_def)
  from createBlindedMessages_frame [OF this] show ?thesis by simp
qed

lemma createRandomBlindedMessages_NoSeed:
  assumes "counter \<noteq> None" and "w_seed s = None"
  shows "createRandomBlindedMessages P amount ks None counter s = (Inl NoSeed, s)"
  using assms
  by (simp add: createRandomBlindedMessages_def splitAmount_def createBlindedMessages_def)

lemma createSplitPayload_NoSeed:
  assumes "counter \<noteq> None" and "w_seed s = None"
  shows "createSplitPayload P amount proofsToSend ks preference counter s = (Inl NoSeed, s)"
  using assms by (simp add: createSplitPayload_def Let_def createRandomBlindedMessages_NoSeed)

lemma createSplitPayload_frame:
  assumes "createSplitPayload P amount proofsToSend ks preference counter s = (r, s1)"
  shows "w_seed s1 = w_seed s \<and> requests s1 = requests s
         \<and> (r = Inl NoSeed \<longrightarrow> counter \<noteq> None \<and> w_seed s = None)"
proof -
  obtain r1 t1 where keep:
    "createRandomBlindedMessages P (jsSub (sumAmounts proofsToSend) amount) ks None counter s = (r1, t1)"
    by (cases "createRandomBlindedMessages P (jsSub (sumAmounts proofsToSend) amount) ks None counter s")
  note f1 = createRandomBlindedMessages_frame [OF keep]
  show ?thesis
  proof (cases r1)
    case (Inl e)
    with assms keep f1 show ?thesis
      by (auto simp add: createSplitPayload_def Let_def)
  next
    case (Inr keepBM)
    define counter' where
      "counter' = (case counter of None \<Rightarrow> None
                   | Some c \<Rightarrow> if w_seed t1 \<noteq> None \<and> c \<noteq> 0
                               then Some (c + length (bt_secrets keepBM)) else Some c)"
    have c': "(counter' \<noteq> None) = (counter \<noteq> None)"
      by (simp add: counter'_def split: option.splits)
    obtain r2 t2 where sendBM:
      "createRandomBlindedMessages P amount ks preference counter' t1 = (r2, t2)"
      by (cases "createRandomBlindedMessages P amount ks preference counter' t1")
    note f2 = createRandomBlindedMessages_frame [OF sendBM]
    from assms keep Inr sendBM have "r = (case r2 of Inl e \<Rightarrow> Inl e | Inr sb \<Rightarrow> r) \<and> s1 = t2"
      by (auto simp add: createSplitPayload_def Let_def counter'_def split: sum.splits)
    moreover from assms keep Inr sendBM have "\<forall>sb. r2 = Inr sb \<longrightarrow> r \<noteq> Inl NoSeed"
      by (auto simp add: createSplitPayload_def Let_def counter'_def split: sum.splits)
    ultimately show ?thesis
      using f1 f2 c' by (cases r2) auto
  qed
qed

lemma callSplit_frame:
  assumes "callSplit M payload s = (r, s1)"
  shows "s1 = s\<lparr>requests := requests s @ [Split payload]\<rparr> \<and> r \<noteq> Inl NoSeed"
  using assms by (auto simp add: callSplit_def split: sum.splits)

lemma callSplitAt_frame:
  assumes "callSplitAt M url payload s = (r, s1)"
  shows "s1 = s\<lparr>requests := requests s @ [SplitAt url payload]\<rparr> \<and> r \<noteq> Inl NoSeed"
  using assms by (auto simp add: callSplitAt_def split: sum.splits)

lemma callRestore_frame:
  assumes "callRestore M outputs s = (r, s1)"
  shows "s1 = s\<lparr>requests := requests s @ [Restore outputs]\<rparr> \<and> r \<noteq> Inl NoSeed"
  using assms by (auto simp add: callRestore_def split: sum.splits)

lemma send_not_NoSeed:
  assumes "counter = None \<or> w_seed s \<noteq> None"
  shows "fst (send P M amount0 proofs preference counter s) \<noteq> Inl NoSeed"
proof -
  define amount where
    "amount = (case preference of None \<Rightarrow> amount0 | Some ps \<Rightarrow> preferenceTotal ps)"
  obtain r1 s1 where ik: "initKeys M s = (r1, s1)" by (cases "initKeys M s")
  note f1 = initKeys_frame [OF ik]
  show ?thesis
  proof (cases r1)
    case (Inl e)
    with ik f1 show ?thesis by (auto simp add: send_def Let_def)
  next
    case (Inr keyset)
    obtain avail toSend toKeep where sel: "selectProofs amount proofs 0 = (avail, toSend, toKeep)"
      by (cases "selectProofs amount proofs 0")
    obtain r2 s2 where sp:
      "createSplitPayload P amount toSend keyset preference counter s1 = (r2, s2)"
      by (cases "createSplitPayload P amount toSend keyset preference counter s1")
    note f2 = createSplitPayload_frame [OF sp]
    have r2: "r2 \<noteq> Inl NoSeed" using f2 f1 assms by auto
    show ?thesis
    proof (cases r2)
      case (Inl e)
      with r2 ik Inr sel sp show ?thesis
        by (auto simp add: send_def Let_def amount_def [symmetric] splitReceive_def)
    next
      case sp_ok: (Inr pb)
      obtain payload bms where pb: "pb = (payload, bms)" by (cases pb)
      obtain r3 s3 where cs: "callSplit M payload s2 = (r3, s3)"
        by (cases "callSplit M payload s2")
      note f3 = callSplit_frame [OF cs]
      from ik Inr sel sp sp_ok pb cs f3 show ?thesis
        by (auto simp add: send_def Let_def amount_def [symmetric] splitReceive_def
              constructProofs_not_NoSeed split: sum.splits prod.splits)
    qed
  qed
qed

lemma foldl_jsAdd_exact:
  "a + sum_list (map f xs) \<le> 2 ^ 53 \<Longrightarrow>
     foldl (\<lambda>total curr. jsAdd total (f curr)) a xs = a + sum_list (map f xs)"
proof (induction xs arbitrary: a)
  case Nil
  then show ?case by simp
next
  case (Cons x xs)
  from Cons.prems have step: "jsAdd a (f x) = a + f x"
    by (simp add: jsAdd_exact)
  from Cons.prems have "(a + f x) + sum_list (map f xs) \<le> 2 ^ 53"
    by (simp add: add.assoc)
  from Cons.IH [OF this] step show ?case by (simp add: add.assoc)
qed

lemma sumAmounts_exact:
  "sum_list (map proof_amount ps) \<le> 2 ^ 53 \<Longrightarrow> sumAmounts ps = sum_list (map proof_amount ps)"
  using foldl_jsAdd_exact [of 0 proof_amount ps] by (simp add: sumAmounts_def)

lemma selectProofs_enough:
  "amount \<le> a \<Longrightarrow> selectProofs amount ps a = (a, [], ps)"
  by (induction ps) auto

text \<open>
  The selected proofs are a prefix of the input, and \<open>amountAvailable\<close> is their sum as
  \<open>send\<close> forms it, from the left and in doubles.
\<close>

lemma selectProofs_split:
  "selectProofs amount ps a = (a', toSend, toKeep) \<Longrightarrow>
     ps = toSend @ toKeep
     \<and> a' = foldl (\<lambda>total curr. jsAdd total (proof_amount curr)) a toSend"
proof (induction ps arbitrary: a a' toSend toKeep)
  case Nil
  then show ?case by simp
next
  case (Cons p ps)
  show ?case
  proof (cases "amount \<le> a")
    case True
    with Cons.prems selectProofs_enough [OF True, of "p # ps"] show ?thesis
      by simp
  next
    case False
    obtain b sd kp where rec: "selectProofs amount ps (jsAdd a (proof_amount p)) = (b, sd, kp)"
      by (cases "selectProofs amount ps (jsAdd a (proof_amount p))")
    from Cons.IH [OF rec] Cons.prems False rec show ?thesis
      by auto
  qed
qed

lemma meltTokens_not_NoSeed:
  assumes "counter = None \<or> w_seed s \<noteq> None"
  shows "fst (meltTokens P M meltQuote proofsToSend keysetId counter s) \<noteq> Inl NoSeed"
proof -
  from createBlankOutputs_ok [OF assms] obtain bd d where
    blank: "createBlankOutputs P (mq_fee_reserve meltQuote)
              (case keysetId of None \<Rightarrow> w_keysetId s | Some k \<Rightarrow> k) counter s
              = (Inr bd, s\<lparr>draws := d\<rparr>)"
    by blast
  define payload where
    "payload = \<lparr>mp_quote = mq_quote meltQuote, mp_inputs = proofsToSend,
                mp_outputs = bd_blindedMessages bd\<rparr>"
  obtain r2 s2 where melt: "callMelt M payload (s\<lparr>draws := d\<rparr>) = (r2, s2)"
    by (cases "callMelt M payload (s\<lparr>draws := d\<rparr>)")
  note f2 = callMelt_frame [OF melt]
  show ?thesis
  proof (cases r2)
    case (Inl e)
    with blank melt f2 show ?thesis
      by (auto simp add: meltTokens_def Let_def payload_def [symmetric])
  next
    case (Inr resp)
    show ?thesis
    proof (cases "mr_change resp")
      case None
      with Inr blank melt show ?thesis
        by (simp add: meltTokens_def Let_def payload_def [symmetric])
    next
      case (Some returned)
      obtain r3 s3 where gk: "getKeys M returned None s2 = (r3, s3)"
        by (cases "getKeys M returned None s2")
      from getKeys_frame [OF gk] Some Inr blank melt gk show ?thesis
        by (auto simp add: meltTokens_def Let_def payload_def [symmetric]
              constructProofs_not_NoSeed split: sum.splits)
    qed
  qed
qed

lemma meltTokens_NoSeed:
  assumes "counter \<noteq> None" and "w_seed s = None"
  shows "meltTokens P M meltQuote proofsToSend keysetId counter s = (Inl NoSeed, s)"
  using assms by (simp add: meltTokens_def createBlankOutputs_NoSeed)

lemma restore_without_seed:
  assumes "w_seed s = None"
  shows "restore P M start count kid s = (Inl RestoreWithoutSeed, s)"
  using assms by (simp add: restore_def)

lemma restore_not_NoSeed: "fst (restore P M start count kid s) \<noteq> Inl NoSeed"
proof (cases "w_seed s")
  case None
  then show ?thesis by (simp add: restore_def)
next
  case (Some sd)
  then have ok: "Some start = None \<or> w_seed s \<noteq> None" by simp
  from createBlindedMessages_ok [OF ok] obtain bt d where
    run: "createBlindedMessages P (replicate count 0) kid (Some start) s = (Inr bt, s\<lparr>draws := d\<rparr>)"
    by blast
  obtain r2 s2 where cr: "callRestore M (bt_blindedMessages bt) (s\<lparr>draws := d\<rparr>) = (r2, s2)"
    by (cases "callRestore M (bt_blindedMessages bt) (s\<lparr>draws := d\<rparr>)")
  note f2 = callRestore_frame [OF cr]
  show ?thesis
  proof (cases r2)
    case (Inl e)
    with Some run cr f2 show ?thesis by (auto simp add: restore_def)
  next
    case (Inr resp)
    obtain r3 s3 where gk: "getKeys M (rs_promises resp) None s2 = (r3, s3)"
      by (cases "getKeys M (rs_promises resp) None s2")
    from getKeys_frame [OF gk] Some run cr Inr gk show ?thesis
      by (auto simp add: restore_def Let_def constructProofs_not_NoSeed split: sum.splits)
  qed
qed

lemma receive_not_NoSeed: "fst (receive P M token preference counter s) \<noteq> Inl NoSeed"
  by (auto simp add: receive_def split: tokenInput.splits sum.splits prod.splits)

lemma receive_returns:
  "\<exists>r s'. receive P M (Decoded t) preference counter s = (Inr r, s')"
  by (auto simp add: receive_def split: prod.splits)

lemma receiveTokenEntryTry_NoSeed:
  assumes "counter \<noteq> None" and "w_seed s = None"
  shows "\<exists>e s1. receiveTokenEntryTry P M tokenEntry preference counter s = (Inl e, s1)"
proof -
  obtain r1 s1 where ik: "initKeys M s = (r1, s1)" by (cases "initKeys M s")
  from initKeys_frame [OF ik] assms have "w_seed s1 = None" by simp
  from createSplitPayload_NoSeed [OF assms(1) this] ik show ?thesis
    by (cases r1) (auto simp add: receiveTokenEntryTry_def Let_def)
qed

lemma receiveTokenEntry_NoSeed:
  assumes "counter \<noteq> None" and "w_seed s = None" and "te_proofs tokenEntry \<noteq> []"
  shows "fst (receiveTokenEntry P M tokenEntry preference counter s)
           = \<lparr>rte_proofs = [], rte_proofsWithError = Some (te_proofs tokenEntry)\<rparr>"
proof -
  from receiveTokenEntryTry_NoSeed [OF assms(1,2)] obtain e s1 where
    "receiveTokenEntryTry P M tokenEntry preference counter s = (Inl e, s1)" by blast
  with assms(3) show ?thesis by (simp add: receiveTokenEntry_def)
qed

lemma send_NoSeed:
  assumes "counter \<noteq> None" and "w_seed s = None"
      and ik: "initKeys M s = (Inr keyset, s1)"
      and sel: "selectProofs (case preference of None \<Rightarrow> amount0 | Some ps \<Rightarrow> preferenceTotal ps)
                  proofs 0 = (avail, toSend, toKeep)"
      and enough: "(case preference of None \<Rightarrow> amount0 | Some ps \<Rightarrow> preferenceTotal ps) \<le> avail"
  shows "send P M amount0 proofs preference counter s =
           (if (case preference of None \<Rightarrow> amount0 | Some ps \<Rightarrow> preferenceTotal ps) < avail
               \<or> preference \<noteq> None
            then (Inl NoSeed, s1)
            else (Inr \<lparr>returnChange = toKeep, send_proofs = toSend\<rparr>, s1))"
proof -
  from initKeys_frame [OF ik] assms(2) have "w_seed s1 = None" by simp
  from createSplitPayload_NoSeed [OF assms(1) this] ik sel enough show ?thesis
    by (auto simp add: send_def Let_def splitReceive_def)
qed


subsection \<open>Evaluation of the examples\<close>

text \<open>Below \<open>2 ^ 53\<close> the examples add, subtract and multiply exactly.\<close>

declare jsAdd_exact [simp] jsSub_exact [simp] jsMul_exact [simp]

lemma exState_simps [simp]:
  "w_keys (exState sd) = Some exKeys" "w_keysetId (exState sd) = ''k1''"
  "w_seed (exState sd) = sd" "requests (exState sd) = []" "draws (exState sd) = 0"
  by (simp_all add: exState_def)

lemma exKeys_simps [simp]:
  "mk_id exKeys = ''k1''" "mk_keys exKeys = [(1, ''K1''), (2, ''K2''), (4, ''K4'')]"
  by (simp_all add: exKeys_def)

lemma exProof_simps [simp]:
  "proof_amount (exProof a) = a"
  by (simp_all add: exProof_def)

lemma exMint_simps [simp]:
  "mint_getKeys exMint h kid url = Inr exKeys"
  "mint_split exMint h payload = Inr (map exSign (sp_outputs payload))"
  "static_split exMint h u payload =
     (if u = ''mint'' then Inr (map exSign (sp_outputs payload)) else Inl ''unreachable'')"
  "mintUrl exMint = ''mint''"
  by (simp_all add: exMint_def)

lemma exInitKeys [simp]: "initKeys exMint (exState sd) = (Inr exKeys, exState sd)"
  by (simp add: initKeys_def)

lemma exSendExactNoSeed: "send exPrimitives exMint 1 [exProof 1] None (Some 0) (exState None)
     = (Inr \<lparr>returnChange = [], send_proofs = [exProof 1]\<rparr>, exState None)"
  by (simp add: send_def)

lemma exSendNoKeysNoSeed: "send exPrimitives exMint 1 [exProof 2] None (Some 0) exEmptyWallet
     = (Inl NoSeed, exEmptyWallet\<lparr>w_keys := Some exKeys, w_keysetId := ''k1'',
                                  requests := [GetKeys None None]\<rparr>)"
  by (simp add: send_def initKeys_def fetchKeys_def exEmptyWallet_def createSplitPayload_NoSeed splitReceive_def)


lemma exReceiveNoSeed: "receive exPrimitives exMint
            (Decoded \<lparr>tk_token = [\<lparr>te_mint = ''mint'', te_proofs = [exProof 1]\<rparr>], tk_memo = None\<rparr>)
            None (Some 0) (exState None)
     = (Inr \<lparr>rr_token = \<lparr>tk_token = [], tk_memo = None\<rparr>,
            rr_tokensWithErrors =
              Some \<lparr>tk_token = [\<lparr>te_mint = ''mint'', te_proofs = [exProof 1]\<rparr>], tk_memo = None\<rparr>\<rparr>,
        exState None)"
  by (simp add: receive_def receiveTokenEntry_def receiveTokenEntryTry_def createSplitPayload_NoSeed)

text \<open>
  C5, as the code has it. \<open>createBlindedMessages\<close> fails with the no-seed error exactly when
  a counter is supplied (0 included) and the wallet has no seed. With a counter and no seed:
  \<open>meltTokens\<close> fails with it and leaves the state as it is (no request is sent);
  \<open>restore\<close> on a wallet without seed fails with its own error, again without a request;
  \<open>send\<close>, once the keys are initialised and the funds suffice, fails with it in the swap
  branch and returns the selected proofs in the exact branch; \<open>receiveTokenEntry\<close> catches
  it and reports the entry's proofs as \<open>proofsWithError\<close>, and \<open>receive\<close> never fails with
  it. With a seed or without a counter, \<open>send\<close> and \<open>meltTokens\<close> never fail with the no-seed
  error, and \<open>restore\<close> never does. Where the key initialisation of \<open>send\<close> fails, or the
  selected funds do not reach the amount, \<open>send\<close> fails with that error, which is not the
  no-seed error.
\<close>

theorem noSeed_error_scope:
  "((fst (createBlindedMessages P amounts kid counter s) = Inl NoSeed)
      = (counter \<noteq> None \<and> w_seed s = None))
   \<and> (counter \<noteq> None \<and> w_seed s = None \<longrightarrow>
        meltTokens P M meltQuote proofs keysetId counter s = (Inl NoSeed, s))
   \<and> (w_seed s = None \<longrightarrow> restore P M start count kid s = (Inl RestoreWithoutSeed, s))
   \<and> (counter \<noteq> None \<and> w_seed s = None \<and> initKeys M s = (Inr keyset, s1)
        \<and> selectProofs (case preference of None \<Rightarrow> amount | Some ps \<Rightarrow> preferenceTotal ps)
             proofs 0 = (avail, toSend, toKeep)
        \<and> (case preference of None \<Rightarrow> amount | Some ps \<Rightarrow> preferenceTotal ps) \<le> avail \<longrightarrow>
        send P M amount proofs preference counter s =
          (if (case preference of None \<Rightarrow> amount | Some ps \<Rightarrow> preferenceTotal ps) < avail
              \<or> preference \<noteq> None
           then (Inl NoSeed, s1)
           else (Inr \<lparr>returnChange = toKeep, send_proofs = toSend\<rparr>, s1)))
   \<and> (counter \<noteq> None \<and> w_seed s = None \<and> te_proofs tokenEntry \<noteq> [] \<longrightarrow>
        fst (receiveTokenEntry P M tokenEntry preference counter s)
          = \<lparr>rte_proofs = [], rte_proofsWithError = Some (te_proofs tokenEntry)\<rparr>)
   \<and> fst (receive P M token preference counter s) \<noteq> Inl NoSeed
   \<and> fst (restore P M start count kid s) \<noteq> Inl NoSeed
   \<and> (counter = None \<or> w_seed s \<noteq> None \<longrightarrow>
        fst (send P M amount proofs preference counter s) \<noteq> Inl NoSeed
        \<and> fst (meltTokens P M meltQuote proofs keysetId counter s) \<noteq> Inl NoSeed)
   \<and> (initKeys M s = (Inl e, s1) \<longrightarrow>
        send P M amount proofs preference counter s = (Inl e, s1) \<and> e \<noteq> NoSeed)
   \<and> (initKeys M s = (Inr keyset, s1)
        \<and> selectProofs (case preference of None \<Rightarrow> amount | Some ps \<Rightarrow> preferenceTotal ps)
             proofs 0 = (avail, toSend, toKeep)
        \<and> avail < (case preference of None \<Rightarrow> amount | Some ps \<Rightarrow> preferenceTotal ps) \<longrightarrow>
        send P M amount proofs preference counter s = (Inl NotEnoughFunds, s1))"
proof -
  have a: "(fst (createBlindedMessages P amounts kid counter s) = Inl NoSeed)
             = (counter \<noteq> None \<and> w_seed s = None)"
    using createBlindedMessages_frame
            [of P amounts kid counter s "fst (createBlindedMessages P amounts kid counter s)"
                "snd (createBlindedMessages P amounts kid counter s)"]
    by simp
  have b: "counter \<noteq> None \<and> w_seed s = None \<longrightarrow>
        meltTokens P M meltQuote proofs keysetId counter s = (Inl NoSeed, s)"
    by (simp add: meltTokens_NoSeed)
  have c: "w_seed s = None \<longrightarrow> restore P M start count kid s = (Inl RestoreWithoutSeed, s)"
    by (simp add: restore_without_seed)
  have d: "counter \<noteq> None \<and> w_seed s = None \<and> initKeys M s = (Inr keyset, s1)
        \<and> selectProofs (case preference of None \<Rightarrow> amount | Some ps \<Rightarrow> preferenceTotal ps)
             proofs 0 = (avail, toSend, toKeep)
        \<and> (case preference of None \<Rightarrow> amount | Some ps \<Rightarrow> preferenceTotal ps) \<le> avail \<longrightarrow>
        send P M amount proofs preference counter s =
          (if (case preference of None \<Rightarrow> amount | Some ps \<Rightarrow> preferenceTotal ps) < avail
              \<or> preference \<noteq> None
           then (Inl NoSeed, s1)
           else (Inr \<lparr>returnChange = toKeep, send_proofs = toSend\<rparr>, s1))"
  proof (intro impI, elim conjE)
    assume "counter \<noteq> None" and "w_seed s = None" and "initKeys M s = (Inr keyset, s1)"
      and "selectProofs (case preference of None \<Rightarrow> amount | Some ps \<Rightarrow> preferenceTotal ps)
             proofs 0 = (avail, toSend, toKeep)"
      and "(case preference of None \<Rightarrow> amount | Some ps \<Rightarrow> preferenceTotal ps) \<le> avail"
    then show "send P M amount proofs preference counter s =
          (if (case preference of None \<Rightarrow> amount | Some ps \<Rightarrow> preferenceTotal ps) < avail
              \<or> preference \<noteq> None
           then (Inl NoSeed, s1)
           else (Inr \<lparr>returnChange = toKeep, send_proofs = toSend\<rparr>, s1))"
      by (rule send_NoSeed)
  qed
  have e: "counter \<noteq> None \<and> w_seed s = None \<and> te_proofs tokenEntry \<noteq> [] \<longrightarrow>
        fst (receiveTokenEntry P M tokenEntry preference counter s)
          = \<lparr>rte_proofs = [], rte_proofsWithError = Some (te_proofs tokenEntry)\<rparr>"
    by (simp add: receiveTokenEntry_NoSeed)
  have f: "counter = None \<or> w_seed s \<noteq> None \<longrightarrow>
        fst (send P M amount proofs preference counter s) \<noteq> Inl NoSeed
        \<and> fst (meltTokens P M meltQuote proofs keysetId counter s) \<noteq> Inl NoSeed"
    by (simp add: send_not_NoSeed meltTokens_not_NoSeed)
  note g = receive_not_NoSeed [of P M token preference counter s]
  note h = restore_not_NoSeed [of P M start count kid s]
  have i: "initKeys M s = (Inl e, s1) \<longrightarrow>
        send P M amount proofs preference counter s = (Inl e, s1) \<and> e \<noteq> NoSeed"
  proof
    assume ik: "initKeys M s = (Inl e, s1)"
    from initKeys_frame [OF ik] have "e \<noteq> NoSeed" by simp
    with ik show "send P M amount proofs preference counter s = (Inl e, s1) \<and> e \<noteq> NoSeed"
      by (simp add: send_def Let_def)
  qed
  have j: "initKeys M s = (Inr keyset, s1)
        \<and> selectProofs (case preference of None \<Rightarrow> amount | Some ps \<Rightarrow> preferenceTotal ps)
             proofs 0 = (avail, toSend, toKeep)
        \<and> avail < (case preference of None \<Rightarrow> amount | Some ps \<Rightarrow> preferenceTotal ps) \<longrightarrow>
        send P M amount proofs preference counter s = (Inl NotEnoughFunds, s1)"
    by (simp add: send_def Let_def)
  show ?thesis
    by (intro conjI) (fact a b c d e g h f i j)+
qed


text \<open>
  C5 as stated fails: with counter 0 and no seed, \<open>send\<close> of the exact amount returns
  normally, \<open>receive\<close> returns normally with the entry among the tokens with errors, and
  \<open>send\<close> on a wallet without cached keys has asked the mint for its keys before it fails.
\<close>

theorem noSeed_error_scope_counterexample:
  "fst (send exPrimitives exMint 1 [exProof 1] None (Some 0) (exState None))
     = Inr \<lparr>returnChange = [], send_proofs = [exProof 1]\<rparr>
   \<and> fst (receive exPrimitives exMint
            (Decoded \<lparr>tk_token = [\<lparr>te_mint = ''mint'', te_proofs = [exProof 1]\<rparr>], tk_memo = None\<rparr>)
            None (Some 0) (exState None))
     = Inr \<lparr>rr_token = \<lparr>tk_token = [], tk_memo = None\<rparr>,
            rr_tokensWithErrors =
              Some \<lparr>tk_token = [\<lparr>te_mint = ''mint'', te_proofs = [exProof 1]\<rparr>], tk_memo = None\<rparr>\<rparr>
   \<and> send exPrimitives exMint 1 [exProof 2] None (Some 0) exEmptyWallet
     = (Inl NoSeed, exEmptyWallet\<lparr>w_keys := Some exKeys, w_keysetId := ''k1'',
                                  requests := [GetKeys None None]\<rparr>)"
  using exSendExactNoSeed exReceiveNoSeed exSendNoKeysNoSeed by simp

theorem noSeed_error_scope_witness:
  "fst (createBlindedMessages exPrimitives [1] ''k1'' (Some 0) (exState None)) = Inl NoSeed
   \<and> meltTokens exPrimitives exMint exQuote [exProof 2] None (Some 0) (exState None)
       = (Inl NoSeed, exState None)
   \<and> restore exPrimitives exMint 0 1 ''k1'' (exState None) = (Inl RestoreWithoutSeed, exState None)
   \<and> send exPrimitives exMint 1 [exProof 2] None (Some 0) (exState None)
       = (Inl NoSeed, exState None)
   \<and> fst (receiveTokenEntry exPrimitives exMint \<lparr>te_mint = ''mint'', te_proofs = [exProof 1]\<rparr>
            None (Some 0) (exState None))
       = \<lparr>rte_proofs = [], rte_proofsWithError = Some [exProof 1]\<rparr>
   \<and> fst (send exPrimitives exMint 1 [exProof 2] None None (exState None)) \<noteq> Inl NoSeed
   \<and> fst (meltTokens exPrimitives exMint exQuote [exProof 4] None (Some 0) (exState (Some [7])))
       \<noteq> Inl NoSeed"
proof -
  have sel: "selectProofs 1 [exProof 2] 0 = (2, [exProof 2], [])"
    by simp
  note t1 = noSeed_error_scope [where P = exPrimitives and M = exMint and amounts = "[1]"
      and kid = "''k1''" and counter = "Some 0" and s = "exState None" and meltQuote = exQuote
      and proofs = "[exProof 2]" and keysetId = None and start = 0 and count = 1
      and preference = None and amount = 1 and keyset = exKeys and ?s1.0 = "exState None"
      and avail = 2 and toSend = "[exProof 2]" and toKeep = "[]"
      and tokenEntry = "\<lparr>te_mint = ''mint'', te_proofs = [exProof 1]\<rparr>"]
  note t2 = noSeed_error_scope [where P = exPrimitives and M = exMint
      and counter = None and s = "exState None" and amount = 1 and proofs = "[exProof 2]"
      and preference = None]
  note t3 = noSeed_error_scope [where P = exPrimitives and M = exMint
      and counter = "Some 0" and s = "exState (Some [7])" and meltQuote = exQuote
      and proofs = "[exProof 4]" and keysetId = None]
  have a: "fst (createBlindedMessages exPrimitives [1] ''k1'' (Some 0) (exState None)) = Inl NoSeed"
    using t1 by simp
  have b: "meltTokens exPrimitives exMint exQuote [exProof 2] None (Some 0) (exState None)
       = (Inl NoSeed, exState None)"
    using t1 by simp
  have c: "restore exPrimitives exMint 0 1 ''k1'' (exState None)
       = (Inl RestoreWithoutSeed, exState None)"
    using t1 by simp
  have d: "send exPrimitives exMint 1 [exProof 2] None (Some 0) (exState None)
       = (Inl NoSeed, exState None)"
    using t1 sel by simp
  have e: "fst (receiveTokenEntry exPrimitives exMint \<lparr>te_mint = ''mint'', te_proofs = [exProof 1]\<rparr>
            None (Some 0) (exState None))
       = \<lparr>rte_proofs = [], rte_proofsWithError = Some [exProof 1]\<rparr>"
    using t1 by simp
  have f: "fst (send exPrimitives exMint 1 [exProof 2] None None (exState None)) \<noteq> Inl NoSeed"
    using t2 by simp
  have g: "fst (meltTokens exPrimitives exMint exQuote [exProof 4] None (Some 0) (exState (Some [7])))
       \<noteq> Inl NoSeed"
    using t3 by simp
  from a b c d e f g show ?thesis by blast
qed

section \<open>send\<close>

lemma defaultSplit_small:
  "defaultSplit 0 = []" "defaultSplit (Suc 0) = [1]" "defaultSplit 2 = [2]"
  "defaultSplit (Suc (Suc 0)) = [2]" "defaultSplit 3 = [1, 2]"
  by (simp_all add: defaultSplit_def defaultSplitFrom.simps)

lemma isPowerOfTwo_small:
  "isPowerOfTwo (Suc 0)" "isPowerOfTwo 2" "isPowerOfTwo (Suc (Suc 0))" "\<not> isPowerOfTwo 3"
  by (simp_all add: isPowerOfTwo.simps)

text \<open>
  C3, as the code has it. When the proofs that \<open>send\<close> selects sum to the amount exactly and
  no preference is given, \<open>send\<close> returns the selected input proofs themselves, with the
  remaining input proofs as change; the selected proofs are a prefix of the input, and the only
  request that may have been sent is the key request of \<open>initKeys\<close>: there is no swap.
\<close>

theorem send_exact_keeps_inputs:
  assumes "initKeys M s = (Inr keyset, s1)"
      and "selectProofs amount proofs 0 = (amount, toSend, toKeep)"
  shows "send P M amount proofs None counter s
           = (Inr \<lparr>returnChange = toKeep, send_proofs = toSend\<rparr>, s1)
         \<and> proofs = toSend @ toKeep \<and> sumAmounts toSend = amount
         \<and> (requests s1 = requests s \<or> requests s1 = requests s @ [GetKeys None None])"
  using assms initKeys_frame [OF assms(1)] selectProofs_split [OF assms(2)]
  by (simp add: send_def sumAmounts_def)

text \<open>
  C3 as stated fails: sending 1 from one proof of amount 1 returns that very proof, and the
  state, whose list of requests is empty, is unchanged.
\<close>

theorem send_exact_keeps_inputs_counterexample:
  "send exPrimitives exMint 1 [exProof 1] None None (exState None)
     = (Inr \<lparr>returnChange = [], send_proofs = [exProof 1]\<rparr>, exState None)
   \<and> requests (exState None) = []"
  by (simp add: send_def)

theorem send_exact_keeps_inputs_witness:
  "initKeys exMint (exState None) = (Inr exKeys, exState None)
   \<and> selectProofs 3 [exProof 1, exProof 2, exProof 4] 0 = (3, [exProof 1, exProof 2], [exProof 4])
   \<and> send exPrimitives exMint 3 [exProof 1, exProof 2, exProof 4] None None (exState None)
       = (Inr \<lparr>returnChange = [exProof 4], send_proofs = [exProof 1, exProof 2]\<rparr>, exState None)"
proof -
  have h1: "initKeys exMint (exState None) = (Inr exKeys, exState None)"
    by simp
  have h2: "selectProofs 3 [exProof 1, exProof 2, exProof 4] 0
              = (3, [exProof 1, exProof 2], [exProof 4])"
    by simp
  from send_exact_keeps_inputs [OF h1 h2, of exPrimitives None] h1 h2 show ?thesis
    by simp
qed

lemma exSwap0:
  "send exPrimitives exMint 1 [exProof 2] None (Some 0) (exState (Some [7]))
     = (Inr \<lparr>returnChange = [\<lparr>proof_id = ''k1'', proof_amount = 1, proof_secret = ''0'',
                                 proof_C = ''0''\<rparr>],
             send_proofs = [\<lparr>proof_id = ''k1'', proof_amount = 1, proof_secret = ''0'',
                              proof_C = ''0''\<rparr>]\<rparr>,
        (exState (Some [7]))\<lparr>requests :=
           [Split \<lparr>sp_inputs = [exProof 2],
                   sp_outputs = [\<lparr>bm_amount = 1, bm_B = ''0'', bm_id = ''k1''\<rparr>,
                                 \<lparr>bm_amount = 1, bm_B = ''0'', bm_id = ''k1''\<rparr>]\<rparr>]\<rparr>)"
  by (simp add: send_def splitReceive_def createSplitPayload_def createRandomBlindedMessages_def
        splitAmount_def defaultSplit_small createBlindedMessages_seeded sumAmounts_def
        callSplit_def constructProofs_def exSign_def Let_def)

lemma exSwap1:
  "send exPrimitives exMint 1 [exProof 2] None (Some 1) (exState (Some [7]))
     = (Inr \<lparr>returnChange = [\<lparr>proof_id = ''k1'', proof_amount = 1, proof_secret = ''1'',
                                 proof_C = ''1''\<rparr>],
             send_proofs = [\<lparr>proof_id = ''k1'', proof_amount = 1, proof_secret = ''2'',
                              proof_C = ''2''\<rparr>]\<rparr>,
        (exState (Some [7]))\<lparr>requests :=
           [Split \<lparr>sp_inputs = [exProof 2],
                   sp_outputs = [\<lparr>bm_amount = 1, bm_B = ''1'', bm_id = ''k1''\<rparr>,
                                 \<lparr>bm_amount = 1, bm_B = ''2'', bm_id = ''k1''\<rparr>]\<rparr>]\<rparr>)"
  by (simp add: send_def splitReceive_def createSplitPayload_def createRandomBlindedMessages_def
        splitAmount_def defaultSplit_small createBlindedMessages_seeded sumAmounts_def
        callSplit_def constructProofs_def exSign_def Let_def)


text \<open>
  With a seed and a counter \<open>c\<close>, the keep group is derived at the indices \<open>c, c + 1, ...\<close> and
  the send group at the indices from \<open>c + k\<close> on, where \<open>k\<close> is the size of the keep group,
  unless \<open>c = 0\<close>: then the send group starts at 0 again.
\<close>

lemma createSplitPayload_seeded:
  assumes "w_seed s = Some sd" and "splitAmount amount preference = Inr sendAmounts"
  shows "\<exists>payload bt.
           createSplitPayload P amount proofsToSend ks preference (Some c) s = (Inr (payload, bt), s)
           \<and> bt_secrets bt =
               map (\<lambda>j. bytesToHex P (deriveSecret P sd (mk_id ks) (c + j)))
                 [0 ..< length (defaultSplit (jsSub (sumAmounts proofsToSend) amount))]
               @ map (\<lambda>j. bytesToHex P (deriveSecret P sd (mk_id ks)
                            ((if c = 0 then 0
                              else c + length (defaultSplit (jsSub (sumAmounts proofsToSend) amount))) + j)))
                   [0 ..< length sendAmounts]"
  using assms
  by (simp add: createSplitPayload_def createRandomBlindedMessages_def splitAmount_def
        createBlindedMessages_seeded Let_def)

text \<open>
  C1 at the counter 0. The toy primitives derive the secret \<open>''i''\<close> at index \<open>i\<close>. Sending 1
  from one proof of amount 2 plans one keep output and one send output: with the counter 0 both
  come from index 0, while with the counter 1 they come from the indices 1 and 2.
\<close>

theorem send_counter_zero_reuses_index:
  "fst (send exPrimitives exMint 1 [exProof 2] None (Some 0) (exState (Some [7])))
     = Inr \<lparr>returnChange = [\<lparr>proof_id = ''k1'', proof_amount = 1, proof_secret = ''0'',
                                proof_C = ''0''\<rparr>],
            send_proofs = [\<lparr>proof_id = ''k1'', proof_amount = 1, proof_secret = ''0'',
                             proof_C = ''0''\<rparr>]\<rparr>
   \<and> fst (send exPrimitives exMint 1 [exProof 2] None (Some 1) (exState (Some [7])))
     = Inr \<lparr>returnChange = [\<lparr>proof_id = ''k1'', proof_amount = 1, proof_secret = ''1'',
                                proof_C = ''1''\<rparr>],
            send_proofs = [\<lparr>proof_id = ''k1'', proof_amount = 1, proof_secret = ''2'',
                             proof_C = ''2''\<rparr>]\<rparr>"
  using exSwap0 exSwap1 by simp

section \<open>receive\<close>

text \<open>
  C2 on a token with one entry: the field \<open>token\<close> of the result is a \<open>Token\<close> object, whose
  own field \<open>token\<close> holds the array of entries.
\<close>

theorem receive_returns_nested_token:
  "fst (receive exPrimitives exMint
          (Decoded \<lparr>tk_token = [\<lparr>te_mint = ''mint'', te_proofs = [exProof 1]\<rparr>], tk_memo = None\<rparr>)
          None None (exState None))
     = Inr \<lparr>rr_token =
              \<lparr>tk_token = [\<lparr>te_mint = ''mint'',
                             te_proofs = [\<lparr>proof_id = ''k1'', proof_amount = 1,
                                           proof_secret = ''0'', proof_C = ''0''\<rparr>]\<rparr>],
               tk_memo = None\<rparr>,
            rr_tokensWithErrors = None\<rparr>"
  by (simp add: receive_def receiveTokenEntry_def receiveTokenEntryTry_def
        createSplitPayload_def createRandomBlindedMessages_def splitAmount_def
        getDefaultAmountPreference_def preferenceTotal_def isPowerOfTwo_small
        defaultSplit_small createBlindedMessages_def blindMessage_def sumAmounts_def
        callSplitAt_def constructProofs_def exSign_def Let_def)

lemma receiveLoop_acc:
  "receiveLoop P M preference counter es (toks, errs) s =
     (case receiveLoop P M preference counter es ([], []) s of
        ((toks', errs'), s') \<Rightarrow> ((toks @ toks', errs @ errs'), s'))"
proof (induction es arbitrary: toks errs s)
  case Nil
  then show ?case by simp
next
  case (Cons e es)
  show ?case
  proof (cases "te_proofs e = []")
    case True
    then show ?thesis using Cons.IH [of toks errs s] by simp
  next
    case False
    obtain r s1 where rte: "receiveTokenEntry P M e preference counter s = (r, s1)"
      by (cases "receiveTokenEntry P M e preference counter s")
    show ?thesis
    proof (cases "case rte_proofsWithError r of None \<Rightarrow> False | Some ws \<Rightarrow> ws \<noteq> []")
      case True
      from Cons.IH [of toks "errs @ [e]" s1] Cons.IH [of "[]" "[e]" s1] False rte True
      show ?thesis by (simp split: prod.splits)
    next
      case nok: False
      from Cons.IH [of "toks @ [\<lparr>te_mint = te_mint e, te_proofs = rte_proofs r\<rparr>]" errs s1]
        Cons.IH [of "[\<lparr>te_mint = te_mint e, te_proofs = rte_proofs r\<rparr>]" "[]" s1] False rte nok
      show ?thesis by (simp split: prod.splits)
    qed
  qed
qed

lemma receiveLoop_append:
  "receiveLoop P M preference counter (es1 @ es2) acc s =
     (case receiveLoop P M preference counter es1 acc s of
        (acc', s') \<Rightarrow> receiveLoop P M preference counter es2 acc' s')"
proof (induction es1 arbitrary: acc s)
  case Nil
  then show ?case by simp
next
  case (Cons e es1)
  obtain toks errs where acc: "acc = (toks, errs)" by (cases acc)
  show ?case
    unfolding acc by (simp add: Cons.IH split: prod.splits)
qed

text \<open>
  C9. Take a token whose entries are \<open>es1\<close>, then an entry with proofs, then \<open>es2\<close>. If
  the processing of that entry fails, at whatever step and with whatever error (a rejected
  swap included), \<open>receive\<close> returns normally, the entry is among the tokens with errors,
  between those of \<open>es1\<close> and those of \<open>es2\<close>, and the entries of \<open>es2\<close> are processed from the
  state the failed attempt left, exactly as they would be on their own. On every decoded token
  \<open>receive\<close> returns a result.
\<close>

theorem receive_isolates_entry_failure:
  assumes nonempty: "te_proofs tokenEntry \<noteq> []"
      and before: "receiveLoop P M preference counter es1 ([], []) s = ((toks1, errs1), s1)"
      and fails: "receiveTokenEntryTry P M tokenEntry preference counter s1 = (Inl err, s2)"
      and after: "receiveLoop P M preference counter es2 ([], []) s2 = ((toks2, errs2), s3)"
  shows "receive P M (Decoded \<lparr>tk_token = es1 @ tokenEntry # es2, tk_memo = memo\<rparr>)
             preference counter s
           = (Inr \<lparr>rr_token = \<lparr>tk_token = toks1 @ toks2, tk_memo = None\<rparr>,
                   rr_tokensWithErrors =
                     Some \<lparr>tk_token = errs1 @ tokenEntry # errs2, tk_memo = None\<rparr>\<rparr>, s3)
         \<and> (\<exists>r s'. receive P M (Decoded t) preference counter s = (Inr r, s'))"
proof -
  from fails nonempty
  have rte: "receiveTokenEntry P M tokenEntry preference counter s1
               = (\<lparr>rte_proofs = [], rte_proofsWithError = Some (te_proofs tokenEntry)\<rparr>, s2)"
    by (simp add: receiveTokenEntry_def)
  have step: "receiveLoop P M preference counter (tokenEntry # es2) (toks1, errs1) s1
                = ((toks1 @ toks2, errs1 @ tokenEntry # errs2), s3)"
    using nonempty rte after receiveLoop_acc [of P M preference counter es2 toks1 "errs1 @ [tokenEntry]" s2]
    by simp
  have "receiveLoop P M preference counter (es1 @ tokenEntry # es2) ([], []) s
          = ((toks1 @ toks2, errs1 @ tokenEntry # errs2), s3)"
    using before step by (simp add: receiveLoop_append)
  then show ?thesis
    using receive_returns [of P M t preference counter s] by (simp add: receive_def)
qed


lemma exReceiveFails:
  "receiveTokenEntryTry exPrimitives exMint \<lparr>te_mint = ''bad'', te_proofs = [exProof 1]\<rparr>
       None None (exState None)
     = (Inl (MintFailure ''unreachable''),
        (exState None)\<lparr>draws := 2,
           requests := [SplitAt ''bad''
              \<lparr>sp_inputs = [exProof 1],
               sp_outputs = [\<lparr>bm_amount = 1, bm_B = ''0'', bm_id = ''k1''\<rparr>]\<rparr>]\<rparr>)"
  by (simp add: receiveTokenEntryTry_def createSplitPayload_def createRandomBlindedMessages_def
        splitAmount_def getDefaultAmountPreference_def preferenceTotal_def isPowerOfTwo_small
        defaultSplit_small createBlindedMessages_def blindMessage_def sumAmounts_def
        callSplitAt_def Let_def)

lemma exReceiveRest:
  "receiveLoop exPrimitives exMint None None [\<lparr>te_mint = ''mint'', te_proofs = [exProof 2]\<rparr>]
       ([], [])
       ((exState None)\<lparr>draws := 2,
           requests := [SplitAt ''bad''
              \<lparr>sp_inputs = [exProof 1],
               sp_outputs = [\<lparr>bm_amount = 1, bm_B = ''0'', bm_id = ''k1''\<rparr>]\<rparr>]\<rparr>)
     = (([\<lparr>te_mint = ''mint'',
           te_proofs = [\<lparr>proof_id = ''k1'', proof_amount = 2, proof_secret = ''2'',
                         proof_C = ''2''\<rparr>]\<rparr>], []),
        (exState None)\<lparr>draws := 4,
           requests := [SplitAt ''bad''
              \<lparr>sp_inputs = [exProof 1],
               sp_outputs = [\<lparr>bm_amount = 1, bm_B = ''0'', bm_id = ''k1''\<rparr>]\<rparr>,
             SplitAt ''mint''
              \<lparr>sp_inputs = [exProof 2],
               sp_outputs = [\<lparr>bm_amount = 2, bm_B = ''2'', bm_id = ''k1''\<rparr>]\<rparr>]\<rparr>)"
  by (simp add: receiveTokenEntry_def receiveTokenEntryTry_def initKeys_def
        createSplitPayload_def createRandomBlindedMessages_def
        splitAmount_def getDefaultAmountPreference_def preferenceTotal_def isPowerOfTwo_small
        defaultSplit_small createBlindedMessages_def blindMessage_def sumAmounts_def
        callSplitAt_def constructProofs_def exSign_def Let_def)

theorem receive_isolates_entry_failure_witness:
  "receive exPrimitives exMint
      (Decoded \<lparr>tk_token = [\<lparr>te_mint = ''bad'', te_proofs = [exProof 1]\<rparr>,
                             \<lparr>te_mint = ''mint'', te_proofs = [exProof 2]\<rparr>], tk_memo = None\<rparr>)
      None None (exState None)
     = (Inr \<lparr>rr_token =
               \<lparr>tk_token = [\<lparr>te_mint = ''mint'',
                              te_proofs = [\<lparr>proof_id = ''k1'', proof_amount = 2,
                                            proof_secret = ''2'', proof_C = ''2''\<rparr>]\<rparr>],
                tk_memo = None\<rparr>,
             rr_tokensWithErrors =
               Some \<lparr>tk_token = [\<lparr>te_mint = ''bad'', te_proofs = [exProof 1]\<rparr>],
                     tk_memo = None\<rparr>\<rparr>,
        (exState None)\<lparr>draws := 4,
           requests := [SplitAt ''bad''
              \<lparr>sp_inputs = [exProof 1],
               sp_outputs = [\<lparr>bm_amount = 1, bm_B = ''0'', bm_id = ''k1''\<rparr>]\<rparr>,
             SplitAt ''mint''
              \<lparr>sp_inputs = [exProof 2],
               sp_outputs = [\<lparr>bm_amount = 2, bm_B = ''2'', bm_id = ''k1''\<rparr>]\<rparr>]\<rparr>)"
proof -
  have nonempty: "te_proofs \<lparr>te_mint = ''bad'', te_proofs = [exProof 1]\<rparr> \<noteq> []"
    by simp
  have before: "receiveLoop exPrimitives exMint None None [] ([], []) (exState None)
                  = (([], []), exState None)"
    by simp
  from receive_isolates_entry_failure [OF nonempty before exReceiveFails exReceiveRest, of None]
  show ?thesis by simp
qed

section \<open>Conservation of value in send\<close>

lemma defaultSplitFrom_sum: "sum_list (defaultSplitFrom p v) = p * v"
proof (induction p v rule: defaultSplitFrom.induct)
  case (1 p v)
  show ?case
  proof (cases "v = 0")
    case True
    then show ?thesis by (simp add: defaultSplitFrom.simps)
  next
    case False
    have v: "v = 2 * (v div 2) + (if odd v then 1 else 0)"
      by (cases "odd v") presburger+
    have "sum_list (defaultSplitFrom p v) = (if odd v then p else 0) + 2 * p * (v div 2)"
      using False "1.IH" by (subst defaultSplitFrom.simps) simp
    also have "\<dots> = p * (2 * (v div 2) + (if odd v then 1 else 0))"
      by (simp add: algebra_simps)
    also have "\<dots> = p * v" using v by simp
    finally show ?thesis .
  qed
qed

lemma defaultSplitFrom_pos: "0 < p \<Longrightarrow> x \<in> set (defaultSplitFrom p v) \<Longrightarrow> 0 < x"
proof (induction p v rule: defaultSplitFrom.induct)
  case (1 p v)
  show ?case
  proof (cases "v = 0")
    case True
    with "1.prems" show ?thesis by (simp add: defaultSplitFrom.simps)
  next
    case False
    from "1.prems"(2) False
    have "x = p \<or> x \<in> set (defaultSplitFrom (2 * p) (v div 2))"
      by (subst (asm) defaultSplitFrom.simps) (auto split: if_splits)
    with "1.IH" [OF False] "1.prems"(1) show ?thesis by auto
  qed
qed

lemma defaultSplit_sum: "sum_list (defaultSplit v) = v"
  by (simp add: defaultSplit_def defaultSplitFrom_sum)

lemma defaultSplit_pos: "x \<in> set (defaultSplit v) \<Longrightarrow> 0 < x"
  using defaultSplitFrom_pos [of 1 x v] by (simp add: defaultSplit_def)

lemma splitAmount_sum:
  assumes "splitAmount amount preference = Inr amounts"
  shows "sum_list amounts = amount"
proof (cases preference)
  case None
  with assms show ?thesis by (auto simp add: splitAmount_def defaultSplit_sum)
next
  case (Some ps)
  have "sum_list (concat (map (\<lambda>p. replicate (pref_count p) (pref_amount p)) qs))
          = sum_list (map (\<lambda>p. pref_amount p * pref_count p) qs)" for qs
    by (induction qs) (simp_all add: sum_list_replicate)
  with assms Some show ?thesis
    by (auto simp add: splitAmount_def defaultSplit_sum split: if_splits)
qed

lemma constructProofsFrom_amounts:
  "constructProofsFrom P sgs rs secrets ks = Inr ps \<Longrightarrow> map proof_amount ps = map sig_amount sgs"
  by (induction P sgs rs secrets ks arbitrary: ps rule: constructProofsFrom.induct)
     (auto split: option.splits sum.splits)

lemma constructProofs_amounts:
  "constructProofs P sgs rs secrets ks = Inr ps \<Longrightarrow> map proof_amount ps = map sig_amount sgs"
  by (auto simp add: constructProofs_def constructProofsFrom_amounts split: if_splits)

lemma keepOrSend_done: "amountKeep \<le> c \<Longrightarrow> keepOrSend amountKeep ps c = ([], ps)"
  by (induction ps) auto

lemma keepOrSend_exact:
  assumes "\<forall>x \<in> set ks. 0 < proof_amount x"
      and "c + sum_list (map proof_amount ks) = amountKeep"
      and "amountKeep \<le> 2 ^ 53"
  shows "keepOrSend amountKeep (ks @ ss) c = (ks, ss)"
  using assms
proof (induction ks arbitrary: c)
  case Nil
  then show ?case by (simp add: keepOrSend_done)
next
  case (Cons k ks)
  from Cons.prems have lt: "c < amountKeep" and pos: "\<forall>x \<in> set ks. 0 < proof_amount x"
    and rest: "(c + proof_amount k) + sum_list (map proof_amount ks) = amountKeep"
    by auto
  from rest Cons.prems(3) have "c + proof_amount k \<le> 2 ^ 53" by linarith
  then have step: "jsAdd c (proof_amount k) = c + proof_amount k"
    by (rule jsAdd_exact)
  from Cons.IH [OF pos rest Cons.prems(3)] lt step show ?case by simp
qed

lemma createBlindedMessages_result:
  assumes "createBlindedMessages P amounts kid counter s = (Inr bt, s1)"
  shows "map bm_amount (bt_blindedMessages bt) = amounts
         \<and> length (bt_secrets bt) = length amounts \<and> length (bt_rs bt) = length amounts"
proof -
  obtain bms secrets rs d where
    run: "blindedMessagesFrom P (w_seed s) kid counter amounts 0 (draws s) = ((bms, secrets, rs), d)"
    by (metis prod_cases3 surj_pair)
  from blindedMessagesFrom_length [OF run] blindedMessagesFrom_amounts [OF run] assms run
  show ?thesis
    by (auto simp add: createBlindedMessages_def split: if_splits)
qed

lemma createRandomBlindedMessages_result:
  assumes "createRandomBlindedMessages P amount ks preference counter s = (Inr bt, s1)"
  shows "\<exists>amounts. splitAmount amount preference = Inr amounts
           \<and> map bm_amount (bt_blindedMessages bt) = amounts
           \<and> length (bt_secrets bt) = length amounts \<and> length (bt_rs bt) = length amounts"
proof (cases "splitAmount amount preference")
  case (Inl e)
  with assms show ?thesis by (simp add: createRandomBlindedMessages_def)
next
  case (Inr amounts)
  with assms have "createBlindedMessages P amounts (mk_id ks) counter s = (Inr bt, s1)"
    by (simp add: createRandomBlindedMessages_def)
  from createBlindedMessages_result [OF this] Inr show ?thesis by simp
qed

lemma createSplitPayload_amounts:
  assumes "createSplitPayload P amount proofsToSend ks preference counter s = (Inr (payload, bt), s2)"
  shows "\<exists>sendAmounts. splitAmount amount preference = Inr sendAmounts
           \<and> map bm_amount (sp_outputs payload)
               = defaultSplit (jsSub (sumAmounts proofsToSend) amount) @ sendAmounts"
proof -
  obtain r1 t1 where keep:
    "createRandomBlindedMessages P (jsSub (sumAmounts proofsToSend) amount) ks None counter s = (r1, t1)"
    by (cases "createRandomBlindedMessages P (jsSub (sumAmounts proofsToSend) amount) ks None counter s")
  show ?thesis
  proof (cases r1)
    case (Inl e)
    with assms keep show ?thesis by (simp add: createSplitPayload_def Let_def)
  next
    case (Inr keepBM)
    define counter' where
      "counter' = (case counter of None \<Rightarrow> None
                   | Some c \<Rightarrow> if w_seed t1 \<noteq> None \<and> c \<noteq> 0
                               then Some (c + length (bt_secrets keepBM)) else Some c)"
    obtain r2 t2 where sendBM:
      "createRandomBlindedMessages P amount ks preference counter' t1 = (r2, t2)"
      by (cases "createRandomBlindedMessages P amount ks preference counter' t1")
    from keep Inr have k: "createRandomBlindedMessages P (jsSub (sumAmounts proofsToSend) amount) ks None
                              counter s = (Inr keepBM, t1)" by simp
    from createRandomBlindedMessages_result [OF k]
    have ka: "map bm_amount (bt_blindedMessages keepBM) = defaultSplit (jsSub (sumAmounts proofsToSend) amount)"
      by (simp add: splitAmount_def)
    show ?thesis
    proof (cases r2)
      case (Inl e)
      with assms keep Inr sendBM show ?thesis
        by (simp add: createSplitPayload_def Let_def counter'_def)
    next
      case sb: (Inr sendBMs)
      from sendBM sb have "createRandomBlindedMessages P amount ks preference counter' t1
                             = (Inr sendBMs, t2)" by simp
      from createRandomBlindedMessages_result [OF this] obtain sendAmounts where
        sa: "splitAmount amount preference = Inr sendAmounts"
        and sm: "map bm_amount (bt_blindedMessages sendBMs) = sendAmounts"
        by blast
      from assms keep Inr sendBM sb
      have "sp_outputs payload = bt_blindedMessages keepBM @ bt_blindedMessages sendBMs"
        by (auto simp add: createSplitPayload_def Let_def counter'_def)
      with ka sa sm show ?thesis by simp
    qed
  qed
qed

lemma floorlog_2_power_53_Suc: "floorlog 2 9007199254740993 = 54"
proof (rule antisym)
  show "floorlog 2 9007199254740993 \<le> 54"
    by (rule floorlog_leI) simp_all
  show "54 \<le> floorlog 2 9007199254740993"
    by (rule floorlog_geI) simp_all
qed

lemma roundToDouble_2_power_53_Suc: "roundToDouble 9007199254740993 = 9007199254740992"
  by (simp add: roundToDouble_def floorlog_2_power_53_Suc)

lemma honestSplit_exMint: "honestSplit exMint"
  by (simp add: honestSplit_def exSign_def o_def)



lemma exSwapPreference:
  "send exPrimitives exMint 4 [exProof 2, exProof 2]
       (Some [\<lparr>pref_amount = 1, pref_count = 3\<rparr>]) (Some 1) (exState (Some [7]))
     = (Inr \<lparr>returnChange = [\<lparr>proof_id = ''k1'', proof_amount = 1, proof_secret = ''1'',
                                 proof_C = ''1''\<rparr>],
             send_proofs = [\<lparr>proof_id = ''k1'', proof_amount = 1, proof_secret = ''2'',
                              proof_C = ''2''\<rparr>,
                            \<lparr>proof_id = ''k1'', proof_amount = 1, proof_secret = ''f'',
                              proof_C = ''f''\<rparr>,
                            \<lparr>proof_id = ''k1'', proof_amount = 1, proof_secret = ''f'',
                              proof_C = ''f''\<rparr>]\<rparr>,
        (exState (Some [7]))\<lparr>requests :=
           [Split \<lparr>sp_inputs = [exProof 2, exProof 2],
                   sp_outputs = [\<lparr>bm_amount = 1, bm_B = ''1'', bm_id = ''k1''\<rparr>,
                                 \<lparr>bm_amount = 1, bm_B = ''2'', bm_id = ''k1''\<rparr>,
                                 \<lparr>bm_amount = 1, bm_B = ''f'', bm_id = ''k1''\<rparr>,
                                 \<lparr>bm_amount = 1, bm_B = ''f'', bm_id = ''k1''\<rparr>]\<rparr>]\<rparr>)"
  by (simp add: send_def splitReceive_def createSplitPayload_def createRandomBlindedMessages_def
        splitAmount_def preferenceTotal_def isPowerOfTwo_small defaultSplit_small
        createBlindedMessages_seeded sumAmounts_def
        callSplit_def constructProofs_def exSign_def Let_def numeral_3_eq_3)


end
